theory Spec2Isabelle
  imports Complex_Main "HOL-Library.Sublist"
begin

section \<open>Values, files and external calls of testApp.py\<close>

text \<open>
  The program is one Streamlit script, executed from top to bottom at every user
  interaction. What survives between two executions is \<^verbatim>\<open>st.session_state\<close> and the
  files in the working directory. Everything else the script does is a call into streamlit,
  leafmap, samgeo or matplotlib: those calls are logged in a trace, and whether a call
  succeeds and what it does to the files is a parameter of the model.
\<close>

type_synonym path = string

text \<open>The arguments of a model constructor: \<^verbatim>\<open>SamGeo(model_type=..., sam_kwargs=...)\<close>,
  \<^verbatim>\<open>SamGeo()\<close> (both arguments absent) and \<^verbatim>\<open>LangSAM()\<close>.\<close>

datatype model_cfg =
    SamGeoCfg "string option" "(string \<times> real) list option"
  | LangSAMCfg

text \<open>A live model object: its identity and the arguments it was constructed with.\<close>

datatype handle = Handle (hid: nat) (hcfg: model_cfg)

text \<open>Python values that the script stores in the session state and in the results dict.
  A dict literal with distinct keys is the association list of its items.\<close>

datatype pyval =
    PNone
  | PBool bool
  | PStr string
  | PFloat real
  | PObj handle
  | PDict "(string \<times> pyval) list"

text \<open>File contents: raw bytes, or the bytes of a zip archive with the given entries
  (entry name, entry data), the encoding left abstract.\<close>

datatype bytes = Raw string | ZipOf "(string \<times> bytes) list"

text \<open>The files the script can see: a map from path to regular file or directory.
  Permissions, links and the nesting of directories are not modelled.\<close>

datatype node = File bytes | Dir

type_synonym fs = "path \<rightharpoonup> node"

text \<open>Every call the script makes into a third-party library, with the arguments the
  script passes. Arguments that are the same constant at every call site are left out: the
  page layout and title, the options of the radio button, the defaults and formats of the
  input fields, the figure size, the colours and blending of \<^verbatim>\<open>show_anns\<close>, the options of
  \<^verbatim>\<open>savefig\<close>, the labels and position of the image comparison, opacity and nodata of the
  mask layer, the style of the vector layer. A \<^verbatim>\<open>with\<close> block (spinner, sidebar, column) is
  one call, made when the block is entered. What a widget returns is an input of the
  execution (record \<open>widgets\<close> below). Labels that are not ASCII in the source are written
  in UTF-8 bytes.\<close>

datatype ext_call =
    St_set_page_config
  | St_title
  | Leafmap_Map "real list option" "nat option" nat
  | Add_basemap string
  | To_streamlit "nat option" string
  | St_sidebar
  | St_header string
  | St_radio
  | St_text_input
  | St_slider string
  | St_columns nat
  | St_number_input string
  | St_info "real list"
  | St_button string
  | St_spinner string
  | Map_tiles_to_geotiff path "real list" nat string bool
  | Time_time
  | Construct model_cfg
  | Generate handle path path bool
  | Predict handle path string real real path
  | Plt_subplots
  | Show_anns handle string
  | Plt_axis_off
  | Plt_savefig path
  | Plt_close
  | St_rerun
  | St_success string
  | St_subheader string
  | Image_comparison pyval pyval
  | Add_raster pyval string "string option"
  | Raster_to_vector handle pyval pyval
  | Add_vector pyval string
  | Add_layer_control
  | St_download_button string bytes string

datatype exn =
    KeyError string
  | AttributeError string
  | NameError string
  | TypeError
  | ValueError
  | FileNotFoundError path
  | IsADirectoryError path
  | OSError path
  | LibraryError ext_call

text \<open>How one execution of (a part of) the script ends: it runs on, it raises, or
  \<^verbatim>\<open>st.rerun()\<close> stops it and asks for a new execution.\<close>

datatype 'a result = Returned 'a | Raised exn | Rerun

record world =
  session :: "string \<rightharpoonup> pyval"
  files :: fs
  trace :: "ext_call list"
  next_handle :: nat

text \<open>The behaviour of the outside: does the call succeed, and which files are there
  afterwards (given the calls made so far and the files before); what the clock reads at
  each moment (a moment is the number of calls made so far); how Python formats a float
  with \<^verbatim>\<open>.1f\<close> and a value that is not a string inside an f-string. A library call
  cannot reach the session state.\<close>

record env =
  lib :: "ext_call \<Rightarrow> ext_call list \<Rightarrow> fs \<Rightarrow> bool \<times> fs"
  clock :: "nat \<Rightarrow> real"
  fmt_1f :: "real \<Rightarrow> string"
  py_str :: "pyval \<Rightarrow> string"

type_synonym 'a prog = "world \<Rightarrow> 'a result \<times> world"

definition ret :: "'a \<Rightarrow> 'a prog" where
  "ret x w = (Returned x, w)"

definition raise :: "exn \<Rightarrow> 'a prog" where
  "raise e w = (Raised e, w)"

definition bind :: "'a prog \<Rightarrow> ('a \<Rightarrow> 'b prog) \<Rightarrow> 'b prog" where
  "bind m f w =
     (case m w of
        (Returned x, w') \<Rightarrow> f x w'
      | (Raised e, w') \<Rightarrow> (Raised e, w')
      | (Rerun, w') \<Rightarrow> (Rerun, w'))"

definition call :: "env \<Rightarrow> ext_call \<Rightarrow> unit prog" where
  "call E c w =
     (case lib E c (trace w) (files w) of
        (ok, fs') \<Rightarrow>
          (if ok then Returned () else Raised (LibraryError c),
           w\<lparr>files := fs', trace := trace w @ [c]\<rparr>))"

text \<open>\<^verbatim>\<open>time.time()\<close>\<close>

definition time_time :: "env \<Rightarrow> real prog" where
  "time_time E w = (Returned (clock E (length (trace w))), w\<lparr>trace := trace w @ [Time_time]\<rparr>)"

text \<open>A constructor call: when it succeeds the new object has an identity no earlier
  object has.\<close>

definition construct :: "env \<Rightarrow> model_cfg \<Rightarrow> handle prog" where
  "construct E cfg =
     bind (call E (Construct cfg)) (\<lambda>_ w.
       (Returned (Handle (next_handle w) cfg), w\<lparr>next_handle := Suc (next_handle w)\<rparr>))"

text \<open>\<^verbatim>\<open>st.rerun()\<close>\<close>

definition st_rerun :: "'a prog" where
  "st_rerun w = (Rerun, w\<lparr>trace := trace w @ [St_rerun]\<rparr>)"

subsection \<open>Session state and dicts\<close>

definition session_has :: "string \<Rightarrow> bool prog" where
  "session_has k w = (Returned (session w k \<noteq> None), w)"

definition session_get :: "string \<Rightarrow> pyval prog" where
  "session_get k w =
     (case session w k of None \<Rightarrow> (Raised (AttributeError k), w) | Some v \<Rightarrow> (Returned v, w))"

definition session_set :: "string \<Rightarrow> pyval \<Rightarrow> unit prog" where
  "session_set k v w = (Returned (), w\<lparr>session := (session w)(k \<mapsto> v)\<rparr>)"

fun truthy :: "pyval \<Rightarrow> bool" where
  "truthy PNone = False"
| "truthy (PBool b) = b"
| "truthy (PStr s) = (s \<noteq> [])"
| "truthy (PFloat r) = (r \<noteq> 0)"
| "truthy (PObj h) = True"
| "truthy (PDict d) = (d \<noteq> [])"

text \<open>\<^verbatim>\<open>results[k]\<close>\<close>

definition subscript :: "pyval \<Rightarrow> string \<Rightarrow> pyval prog" where
  "subscript r k =
     (case r of
        PDict d \<Rightarrow> (case map_of d k of None \<Rightarrow> raise (KeyError k) | Some v \<Rightarrow> ret v)
      | _ \<Rightarrow> raise TypeError)"

subsection \<open>os.path, os.remove, open, zipfile\<close>

definition os_path_exists :: "path \<Rightarrow> bool prog" where
  "os_path_exists p w = (Returned (files w p \<noteq> None), w)"

definition os_remove :: "path \<Rightarrow> unit prog" where
  "os_remove p w =
     (case files w p of
        None \<Rightarrow> (Raised (FileNotFoundError p), w)
      | Some Dir \<Rightarrow> (Raised (IsADirectoryError p), w)
      | Some (File b) \<Rightarrow> (Returned (), w\<lparr>files := (files w)(p := None)\<rparr>))"

definition os_path_basename :: "path \<Rightarrow> string" where
  "os_path_basename p = rev (takeWhile (\<lambda>c. c \<noteq> CHR ''/'') (rev p))"

definition os_path_dirpart :: "path \<Rightarrow> string" where
  "os_path_dirpart p = rev (dropWhile (\<lambda>c. c \<noteq> CHR ''/'') (rev p))"

text \<open>\<^verbatim>\<open>os.path.splitext\<close>: the extension starts at the last dot of the last path
  component, unless only dots precede it there.\<close>

definition os_path_splitext :: "path \<Rightarrow> string \<times> string" where
  "os_path_splitext p =
     (let name = os_path_basename p;
          ext = rev (takeWhile (\<lambda>c. c \<noteq> CHR ''.'') (rev name));
          stem = rev (tl (dropWhile (\<lambda>c. c \<noteq> CHR ''.'') (rev name)))
      in if CHR ''.'' \<in> set name \<and> (\<exists>c \<in> set stem. c \<noteq> CHR ''.'')
         then (os_path_dirpart p @ stem, CHR ''.'' # ext)
         else (p, []))"

text \<open>\<^verbatim>\<open>open(p, "rb")\<close>: the data the download button will stream.\<close>

definition open_rb :: "pyval \<Rightarrow> bytes prog" where
  "open_rb v w =
     (case v of
        PStr p \<Rightarrow>
          (case files w p of
             None \<Rightarrow> (Raised (FileNotFoundError p), w)
           | Some Dir \<Rightarrow> (Raised (IsADirectoryError p), w)
           | Some (File b) \<Rightarrow> (Returned b, w))
      | _ \<Rightarrow> (Raised TypeError, w))"

text \<open>\<^verbatim>\<open>os.path.dirname\<close>: what precedes the last slash, without trailing slashes unless
  it consists of slashes only.\<close>

definition os_path_dirname :: "path \<Rightarrow> string" where
  "os_path_dirname p =
     (let head = os_path_dirpart p
      in if head \<noteq> [] \<and> (\<exists>c \<in> set head. c \<noteq> CHR ''/'')
         then rev (dropWhile (\<lambda>c. c = CHR ''/'') (rev head))
         else head)"

text \<open>The directory a new file would be created in is there: it is the working directory
  (no slash in the path), the root, or a directory of the file map under the spelling of
  the path.\<close>

definition parent_exists :: "fs \<Rightarrow> path \<Rightarrow> bool" where
  "parent_exists f p =
     (let d = os_path_dirname p
      in d = [] \<or> (\<forall>c \<in> set d. c = CHR ''/'') \<or> f d = Some Dir)"

definition strip_slashes :: "path \<Rightarrow> path" where
  "strip_slashes p = rev (dropWhile (\<lambda>c. c = CHR ''/'') (rev p))"

text \<open>\<^verbatim>\<open>zipfile.ZipFile(zip_path, 'w')\<close> opens the path for writing. It raises for the empty
  path, for a path with a NUL character, when the directory of the path is missing, for a
  name of more than 255 bytes, and for a path that is or names a directory (the root, a
  trailing slash, \<^verbatim>\<open>.\<close>, \<^verbatim>\<open>..\<close>, a directory of the file map); otherwise the file is
  created, or truncated, as an archive without entries.\<close>

definition zipfile_open_w :: "path \<Rightarrow> unit prog" where
  "zipfile_open_w zip_path w =
     (let q = strip_slashes zip_path in
      if zip_path = [] then (Raised (FileNotFoundError zip_path), w)
      else if CHR 0x00 \<in> set zip_path then (Raised ValueError, w)
      else if q = [] then (Raised (IsADirectoryError zip_path), w)
      else if \<not> parent_exists (files w) q then (Raised (FileNotFoundError zip_path), w)
      else if 255 < length (os_path_basename q) then (Raised (OSError zip_path), w)
      else if q \<noteq> zip_path \<or> os_path_basename q = ''.'' \<or> os_path_basename q = ''..''
              \<or> files w q = Some Dir \<or> files w zip_path = Some Dir
        then (Raised (IsADirectoryError zip_path), w)
      else (Returned (), w\<lparr>files := (files w)(zip_path \<mapsto> File (ZipOf []))\<rparr>))"

text \<open>\<^verbatim>\<open>zipf.write(file_path, arcname)\<close>: a directory is stored as an entry without data
  whose name ends in a slash.\<close>

definition zip_append :: "path \<Rightarrow> string \<times> bytes \<Rightarrow> fs \<Rightarrow> fs" where
  "zip_append zip_path entry f =
     (case f zip_path of
        Some (File (ZipOf es)) \<Rightarrow> f(zip_path \<mapsto> File (ZipOf (es @ [entry])))
      | _ \<Rightarrow> f)"

definition zipf_write :: "path \<Rightarrow> path \<Rightarrow> string \<Rightarrow> unit prog" where
  "zipf_write zip_path file_path arcname w =
     (case files w file_path of
        None \<Rightarrow> (Raised (FileNotFoundError file_path), w)
      | Some Dir \<Rightarrow>
          (Returned (), w\<lparr>files := zip_append zip_path (arcname @ ''/'', Raw []) (files w)\<rparr>)
      | Some (File b) \<Rightarrow>
          (Returned (), w\<lparr>files := zip_append zip_path (arcname, b) (files w)\<rparr>))"

section \<open>The script\<close>

subsection \<open>Lines 210-219: create_shapefile_zip\<close>

fun zip_loop :: "path \<Rightarrow> string \<Rightarrow> string list \<Rightarrow> unit prog" where
  "zip_loop zip_path base [] = ret ()"
| "zip_loop zip_path base (ext # exts) =
     bind (bind (os_path_exists (base @ ext)) (\<lambda>b.
             if b then zipf_write zip_path (base @ ext) (os_path_basename (base @ ext))
             else ret ()))
       (\<lambda>_. zip_loop zip_path base exts)"

definition extensions :: "string list" where
  "extensions = [''.shp'', ''.shx'', ''.dbf'', ''.prj'']"

definition create_shapefile_zip :: "path \<Rightarrow> path \<Rightarrow> unit prog" where
  "create_shapefile_zip shp_path zip_path =
     (let base = fst (os_path_splitext shp_path)
      in bind (zipfile_open_w zip_path) (\<lambda>_. zip_loop zip_path base extensions))"

subsection \<open>Lines 55-61: the fixed paths and the removal of old files\<close>

definition tiff_path :: path where "tiff_path = ''satellite.tif''"
definition mask_path :: path where "mask_path = ''masks.tif''"
definition vector_path :: path where "vector_path = ''masks.shp''"

fun cleanup :: "path list \<Rightarrow> unit prog" where
  "cleanup [] = ret ()"
| "cleanup (file # rest) =
     bind (bind (os_path_exists file) (\<lambda>b. if b then os_remove file else ret ()))
       (\<lambda>_. cleanup rest)"

subsection \<open>Lines 16-19: the session state is initialised on first load\<close>

definition init_session :: "unit prog" where
  "init_session =
     bind (session_has ''results'') (\<lambda>present.
     bind (if \<not> present then session_set ''results'' PNone else ret ()) (\<lambda>_.
     bind (session_has ''map_visible'') (\<lambda>present.
     if \<not> present then session_set ''map_visible'' (PBool True) else ret ())))"

subsection \<open>Lines 22-50: the map and the input widgets\<close>

text \<open>The values the widgets hand to this execution of the script, and which button (if
  any) was clicked to trigger it.\<close>

datatype radio_option = Automatische_Segmentierung | Text_Prompt_Suche

fun option_label :: "radio_option \<Rightarrow> string" where
  "option_label Automatische_Segmentierung = ''Automatische Segmentierung''"
| "option_label Text_Prompt_Suche = ''Text-Prompt Suche''"

record widgets =
  radio_value :: radio_option
  text_input_value :: string
  box_slider_value :: real
  text_slider_value :: real
  left_value :: real
  bottom_value :: real
  right_value :: real
  top_value :: real
  run_clicked :: bool
  reset_clicked :: bool

definition render_map :: "env \<Rightarrow> unit prog" where
  "render_map E =
     bind (session_get ''map_visible'') (\<lambda>map_visible.
     if truthy map_visible then
       bind (call E (Leafmap_Map (Some [52.4658, 13.3825]) (Some 18) 700)) (\<lambda>_.
       bind (call E (Add_basemap ''SATELLITE'')) (\<lambda>_.
       call E (To_streamlit (Some 500) ''main_map'')))
     else ret ())"

text \<open>The sidebar returns \<^verbatim>\<open>process_type\<close> and, only in text-prompt mode, the variables
  \<^verbatim>\<open>text_prompt\<close>, \<^verbatim>\<open>box_threshold\<close> and \<^verbatim>\<open>text_threshold\<close>; in the other mode they
  are not defined.\<close>

definition render_sidebar :: "env \<Rightarrow> widgets \<Rightarrow> (string \<times> (string \<times> real \<times> real) option) prog" where
  "render_sidebar E W =
     bind (call E St_sidebar) (\<lambda>_.
     bind (call E (St_header ([CHR 0xE2, CHR 0x9A, CHR 0x99, CHR 0xEF, CHR 0xB8, CHR 0x8F]
                              @ '' Einstellungen''))) (\<lambda>_.
     bind (call E St_radio) (\<lambda>_.
     let process_type = option_label (radio_value W) in
     if process_type = ''Text-Prompt Suche'' then
       bind (call E St_text_input) (\<lambda>_.
       bind (call E (St_slider ''Box Threshold'')) (\<lambda>_.
       bind (call E (St_slider ''Text Threshold'')) (\<lambda>_.
       ret (process_type,
            Some (text_input_value W, box_slider_value W, text_slider_value W)))))
     else ret (process_type, None))))"

definition render_bbox :: "env \<Rightarrow> widgets \<Rightarrow> real list prog" where
  "render_bbox E W =
     bind (call E (St_header '' Bounding Box festlegen'')) (\<lambda>_.
     bind (call E (St_columns 4)) (\<lambda>_.
     bind (call E (St_number_input ''Left (West)'')) (\<lambda>_.
     bind (call E (St_number_input (''Bottom (S'' @ [CHR 0xC3, CHR 0xBC] @ ''d)''))) (\<lambda>_.
     bind (call E (St_number_input ''Right (Ost)'')) (\<lambda>_.
     bind (call E (St_number_input ''Top (Nord)'')) (\<lambda>_.
     let bbox = [left_value W, bottom_value W, right_value W, top_value W] in
     bind (call E (St_info bbox)) (\<lambda>_. ret bbox)))))))"

subsection \<open>Lines 53-151: the run button\<close>

definition run_automatic :: "env \<Rightarrow> string \<Rightarrow> unit prog" where
  "run_automatic E process_type =
     bind (call E (St_spinner ''Segmentiere Objekte...'')) (\<lambda>_.
     bind (time_time E) (\<lambda>start_time.
     bind (construct E (SamGeoCfg (Some ''vit_h'')
             (Some [(''points_per_side'', 32), (''pred_iou_thresh'', 0.86),
                    (''stability_score_thresh'', 0.92)]))) (\<lambda>sam.
     bind (call E (Generate sam tiff_path mask_path True)) (\<lambda>_.
     bind (call E Plt_subplots) (\<lambda>_.
     bind (call E (Show_anns sam ''Automatic Segmentation'')) (\<lambda>_.
     bind (call E Plt_axis_off) (\<lambda>_.
     let vis_path = ''visualization.png'' in
     bind (call E (Plt_savefig vis_path)) (\<lambda>_.
     bind (call E Plt_close) (\<lambda>_.
     bind (time_time E) (\<lambda>now.
     let duration = now - start_time in
     session_set ''results'' (PDict
       [(''tiff_path'', PStr tiff_path),
        (''mask_path'', PStr mask_path),
        (''vector_path'', PStr vector_path),
        (''vis_path'', PStr vis_path),
        (''process_type'', PStr process_type),
        (''duration'', PFloat duration)])))))))))))"

definition run_text_prompt :: "env \<Rightarrow> string \<Rightarrow> string \<Rightarrow> real \<Rightarrow> real \<Rightarrow> unit prog" where
  "run_text_prompt E process_type text_prompt box_threshold text_threshold =
     bind (call E (St_spinner (''Suche nach '' @ [CHR 0x27] @ text_prompt @ [CHR 0x27] @ ''...''))) (\<lambda>_.
     bind (time_time E) (\<lambda>start_time.
     bind (construct E LangSAMCfg) (\<lambda>sam.
     bind (call E (Predict sam tiff_path text_prompt box_threshold text_threshold mask_path)) (\<lambda>_.
     bind (call E Plt_subplots) (\<lambda>_.
     bind (call E (Show_anns sam (''Segmentation of '' @ text_prompt))) (\<lambda>_.
     bind (call E Plt_axis_off) (\<lambda>_.
     let vis_path = ''visualization.png'' in
     bind (call E (Plt_savefig vis_path)) (\<lambda>_.
     bind (call E Plt_close) (\<lambda>_.
     bind (time_time E) (\<lambda>now.
     let duration = now - start_time in
     session_set ''results'' (PDict
       [(''tiff_path'', PStr tiff_path),
        (''mask_path'', PStr mask_path),
        (''vector_path'', PStr vector_path),
        (''vis_path'', PStr vis_path),
        (''process_type'', PStr process_type),
        (''text_prompt'', PStr text_prompt),
        (''duration'', PFloat duration),
        (''sam'', PObj sam)])))))))))))"

text \<open>Lines 55-66, the body of the first spinner block: the old files are removed, then
  the tile is downloaded.\<close>

definition download_tile :: "env \<Rightarrow> real list \<Rightarrow> unit prog" where
  "download_tile E bbox =
     bind (cleanup [tiff_path, mask_path, vector_path]) (\<lambda>_.
     call E (Map_tiles_to_geotiff tiff_path bbox 18 ''Satellite'' True))"

text \<open>The body of \<^verbatim>\<open>if st.button("Starte Segmentierung")\<close>. It never falls through:
  it raises or it ends in \<^verbatim>\<open>st.rerun()\<close>.\<close>

definition run_segmentation ::
  "env \<Rightarrow> real list \<Rightarrow> string \<Rightarrow> (string \<times> real \<times> real) option \<Rightarrow> unit prog" where
  "run_segmentation E bbox process_type prompt_vars =
     bind (call E (St_spinner ''Lade Satellitenbild...'')) (\<lambda>_.
     bind (download_tile E bbox) (\<lambda>_.
     bind (if process_type = ''Automatische Segmentierung'' then run_automatic E process_type
           else (case prompt_vars of
                   None \<Rightarrow> raise (NameError ''text_prompt'')
                 | Some (text_prompt, box_threshold, text_threshold) \<Rightarrow>
                     run_text_prompt E process_type text_prompt box_threshold text_threshold))
       (\<lambda>_.
     bind (session_set ''map_visible'' (PBool False)) (\<lambda>_.
     st_rerun))))"

subsection \<open>Lines 154-252: the results panel\<close>

text \<open>\<^verbatim>\<open>f"{v:.1f}"\<close> and \<^verbatim>\<open>f"{v}"\<close>\<close>

definition format_1f :: "env \<Rightarrow> pyval \<Rightarrow> string prog" where
  "format_1f E v =
     (case v of
        PFloat d \<Rightarrow> ret (fmt_1f E d)
      | PBool b \<Rightarrow> ret (fmt_1f E (if b then 1 else 0))
      | PStr s \<Rightarrow> raise ValueError
      | _ \<Rightarrow> raise TypeError)"

definition format_str :: "env \<Rightarrow> pyval \<Rightarrow> string" where
  "format_str E v = (case v of PStr s \<Rightarrow> s | _ \<Rightarrow> py_str E v)"

text \<open>Line 158, the text of the header.\<close>

definition results_header :: "env \<Rightarrow> pyval \<Rightarrow> string prog" where
  "results_header E results =
     bind (subscript results ''process_type'') (\<lambda>process_type.
     if process_type = PStr ''Text-Prompt Suche'' then
       bind (subscript results ''text_prompt'') (\<lambda>text_prompt.
       ret (''Ergebnisse: '' @ format_str E text_prompt))
     else ret (''Ergebnisse: '' @ ''Automatische Segmentierung''))"

text \<open>Lines 187-191.\<close>

definition vectorize :: "env \<Rightarrow> pyval \<Rightarrow> unit prog" where
  "vectorize E results =
     bind (subscript results ''process_type'') (\<lambda>process_type.
     if process_type = PStr ''Text-Prompt Suche'' then
       bind (subscript results ''sam'') (\<lambda>sam.
       case sam of
         PObj h \<Rightarrow>
           bind (subscript results ''mask_path'') (\<lambda>m.
           bind (subscript results ''vector_path'') (\<lambda>v.
           call E (Raster_to_vector h m v)))
       | _ \<Rightarrow> raise (AttributeError ''raster_to_vector''))
     else
       bind (construct E (SamGeoCfg None None)) (\<lambda>sam.
       bind (subscript results ''mask_path'') (\<lambda>m.
       bind (subscript results ''vector_path'') (\<lambda>v.
       call E (Raster_to_vector sam m v)))))"

text \<open>Lines 249-252.\<close>

definition reset_handler :: "unit prog" where
  "reset_handler =
     bind (session_set ''results'' PNone) (\<lambda>_.
     bind (session_set ''map_visible'' (PBool True)) (\<lambda>_.
     st_rerun))"

definition render_results :: "env \<Rightarrow> widgets \<Rightarrow> pyval \<Rightarrow> unit prog" where
  "render_results E W results =
     bind (subscript results ''duration'') (\<lambda>duration.
     bind (format_1f E duration) (\<lambda>secs.
     bind (call E (St_success (''Segmentierung fertig ('' @ secs @ ''s)''))) (\<lambda>_.
     bind (results_header E results) (\<lambda>header.
     bind (call E (St_header header)) (\<lambda>_.
     bind (call E (St_subheader ''Bildvergleich'')) (\<lambda>_.
     bind (subscript results ''tiff_path'') (\<lambda>t.
     bind (subscript results ''vis_path'') (\<lambda>v.
     bind (call E (Image_comparison t v)) (\<lambda>_.
     bind (call E (Leafmap_Map None None 700)) (\<lambda>_.
     bind (subscript results ''tiff_path'') (\<lambda>t.
     bind (call E (Add_raster t ''Satellitenbild'' None)) (\<lambda>_.
     bind (subscript results ''process_type'') (\<lambda>process_type.
     let palette = (if process_type = PStr ''Automatische Segmentierung''
                    then ''viridis'' else ''Greens'') in
     bind (subscript results ''mask_path'') (\<lambda>m.
     bind (call E (Add_raster m ''Segmentierung'' (Some palette))) (\<lambda>_.
     bind (vectorize E results) (\<lambda>_.
     bind (subscript results ''vector_path'') (\<lambda>vp.
     bind (call E (Add_vector vp ''Vektorisierte Objekte'')) (\<lambda>_.
     bind (call E Add_layer_control) (\<lambda>_.
     bind (call E (To_streamlit None ''result_map'')) (\<lambda>_.
     bind (call E (St_header ''Ergebnisse exportieren'')) (\<lambda>_.
     bind (call E (St_columns 3)) (\<lambda>_.
     bind (subscript results ''mask_path'') (\<lambda>m.
     bind (open_rb m) (\<lambda>data.
     bind (call E (St_download_button ''GeoTIFF herunterladen'' data ''segmentation.tif'')) (\<lambda>_.
     bind (subscript results ''vis_path'') (\<lambda>v.
     bind (open_rb v) (\<lambda>data.
     bind (call E (St_download_button ''Visualisierung herunterladen'' data ''visualization.png'')) (\<lambda>_.
     let zip_path = ''segmentation_shp.zip'' in
     bind (subscript results ''vector_path'') (\<lambda>vp.
     bind (case vp of PStr shp_path \<Rightarrow> create_shapefile_zip shp_path zip_path
                    | _ \<Rightarrow> raise TypeError) (\<lambda>_.
     bind (open_rb (PStr zip_path)) (\<lambda>data.
     bind (call E (St_download_button ''Vektordaten (Shapefile)'' data ''segmentation_shp.zip'')) (\<lambda>_.
     bind (call E (St_button ''Neue Segmentierung starten'')) (\<lambda>_.
     if reset_clicked W then reset_handler else ret ())))))))))))))))))))))))))))))))))"

subsection \<open>One execution of the whole script\<close>

definition script :: "env \<Rightarrow> widgets \<Rightarrow> unit prog" where
  "script E W =
     bind (call E St_set_page_config) (\<lambda>_.
     bind (call E St_title) (\<lambda>_.
     bind init_session (\<lambda>_.
     bind (render_map E) (\<lambda>_.
     bind (render_sidebar E W) (\<lambda>(process_type, prompt_vars).
     bind (render_bbox E W) (\<lambda>bbox.
     bind (call E (St_button ''Starte Segmentierung'')) (\<lambda>_.
     bind (if run_clicked W then run_segmentation E bbox process_type prompt_vars
           else ret ()) (\<lambda>_.
     bind (session_get ''results'') (\<lambda>results.
     if truthy results then render_results E W results else ret ())))))))))"

section \<open>Definitions used to state the properties\<close>


text \<open>A concrete outside (every call succeeds and leaves the files alone) and a concrete
  world after first load, for evaluating the script.\<close>

definition E0 :: env where
  "E0 = \<lparr>lib = (\<lambda>c tr f. (True, f)), clock = (\<lambda>n. 0), fmt_1f = (\<lambda>r. []), py_str = (\<lambda>v. [])\<rparr>"

definition world0 :: "fs \<Rightarrow> world" where
  "world0 f = \<lparr>session = [''results'' \<mapsto> PNone, ''map_visible'' \<mapsto> PBool True],
               files = f, trace = [], next_handle = 0\<rparr>"

text \<open>The default bounding box of the input fields, some old files in the working directory.\<close>

definition bbox0 :: "real list" where
  "bbox0 = [13.38, 52.46436, 13.3832, 52.4672]"

definition stale_files :: fs where
  "stale_files = [''satellite.tif'' \<mapsto> File (Raw ''old tile''),
                  ''masks.shp'' \<mapsto> File (Raw ''old shp''),
                  ''masks.shx'' \<mapsto> File (Raw ''old shx''),
                  ''visualization.png'' \<mapsto> File (Raw ''old png'')]"

text \<open>The calls of a complete run, in order: the tile, then (between the two readings of the
  clock) the model and the visualization. \<open>N\<close> is the identity of the model object.\<close>

definition vit_h_cfg :: model_cfg where
  "vit_h_cfg = SamGeoCfg (Some ''vit_h'')
     (Some [(''points_per_side'', 32), (''pred_iou_thresh'', 0.86),
            (''stability_score_thresh'', 0.92)])"

definition tile_calls :: "real list \<Rightarrow> string \<Rightarrow> ext_call list" where
  "tile_calls bbox spinner_text =
     [St_spinner ''Lade Satellitenbild...'',
      Map_tiles_to_geotiff tiff_path bbox 18 ''Satellite'' True,
      St_spinner spinner_text]"

definition automatic_calls :: "nat \<Rightarrow> ext_call list" where
  "automatic_calls N =
     [Construct vit_h_cfg,
      Generate (Handle N vit_h_cfg) tiff_path mask_path True,
      Plt_subplots,
      Show_anns (Handle N vit_h_cfg) ''Automatic Segmentation'',
      Plt_axis_off,
      Plt_savefig ''visualization.png'',
      Plt_close]"

definition text_prompt_calls :: "nat \<Rightarrow> string \<Rightarrow> real \<Rightarrow> real \<Rightarrow> ext_call list" where
  "text_prompt_calls N text_prompt box_threshold text_threshold =
     [Construct LangSAMCfg,
      Predict (Handle N LangSAMCfg) tiff_path text_prompt box_threshold text_threshold mask_path,
      Plt_subplots,
      Show_anns (Handle N LangSAMCfg) (''Segmentation of '' @ text_prompt),
      Plt_axis_off,
      Plt_savefig ''visualization.png'',
      Plt_close]"

definition spinner_text :: "radio_option \<Rightarrow> string \<Rightarrow> string" where
  "spinner_text mode text_prompt =
     (case mode of
        Automatische_Segmentierung \<Rightarrow> ''Segmentiere Objekte...''
      | Text_Prompt_Suche \<Rightarrow> ''Suche nach '' @ [CHR 0x27] @ text_prompt @ [CHR 0x27] @ ''...'')"

text \<open>The results dict of each branch.\<close>

definition automatic_record :: "string \<Rightarrow> real \<Rightarrow> (string \<times> pyval) list" where
  "automatic_record process_type duration =
     [(''tiff_path'', PStr ''satellite.tif''),
      (''mask_path'', PStr ''masks.tif''),
      (''vector_path'', PStr ''masks.shp''),
      (''vis_path'', PStr ''visualization.png''),
      (''process_type'', PStr process_type),
      (''duration'', PFloat duration)]"

definition text_prompt_record ::
  "string \<Rightarrow> string \<Rightarrow> real \<Rightarrow> handle \<Rightarrow> (string \<times> pyval) list" where
  "text_prompt_record process_type text_prompt duration sam =
     [(''tiff_path'', PStr ''satellite.tif''),
      (''mask_path'', PStr ''masks.tif''),
      (''vector_path'', PStr ''masks.shp''),
      (''vis_path'', PStr ''visualization.png''),
      (''process_type'', PStr process_type),
      (''text_prompt'', PStr text_prompt),
      (''duration'', PFloat duration),
      (''sam'', PObj sam)]"

text \<open>A clock that is set back during the run.\<close>

definition E_back :: env where
  "E_back = E0\<lparr>clock := (\<lambda>n. if n \<le> 3 then 5 else 3)\<rparr>"

text \<open>An outside where \<^verbatim>\<open>generate\<close> raises after it has written part of the mask.\<close>

definition E_fail :: env where
  "E_fail = E0\<lparr>lib := (\<lambda>c tr f. case c of
                Generate h src out fg \<Rightarrow> (False, f(out \<mapsto> File (Raw ''partial'')))
              | _ \<Rightarrow> (True, f))\<rparr>"

text \<open>A triple over the part of the world that library calls do not decide: from session
  \<open>S\<close>, trace \<open>T\<close> and next identity \<open>N\<close>, whatever the files are, the program ends in a
  result, session, trace and next identity that satisfy \<open>Q\<close>.\<close>

definition triple ::
  "(string \<rightharpoonup> pyval) \<Rightarrow> ext_call list \<Rightarrow> nat \<Rightarrow> 'a prog \<Rightarrow>
   ('a result \<Rightarrow> (string \<rightharpoonup> pyval) \<Rightarrow> ext_call list \<Rightarrow> nat \<Rightarrow> bool) \<Rightarrow> bool" where
  "triple S T N m Q \<longleftrightarrow>
     (\<forall>w. session w = S \<and> trace w = T \<and> next_handle w = N \<longrightarrow>
        Q (fst (m w)) (session (snd (m w))) (trace (snd (m w))) (next_handle (snd (m w))))"

text \<open>A program is quiet when it leaves session, trace and object counter alone, never
  asks for a rerun, and raises only exceptions in \<open>X\<close>.\<close>

definition quiet :: "(exn \<Rightarrow> bool) \<Rightarrow> 'a prog \<Rightarrow> bool" where
  "quiet X m \<longleftrightarrow>
     (\<forall>w. session (snd (m w)) = session w \<and> trace (snd (m w)) = trace w \<and>
          next_handle (snd (m w)) = next_handle w \<and>
          (case fst (m w) of Returned x \<Rightarrow> True | Raised e \<Rightarrow> X e | Rerun \<Rightarrow> False))"

definition not_key_error :: "exn \<Rightarrow> bool" where
  "not_key_error e \<longleftrightarrow> (\<forall>k. e \<noteq> KeyError k)"

text \<open>A program is neutral when it never changes the session state and never asks for a
  rerun.\<close>

definition neutral :: "'a prog \<Rightarrow> bool" where
  "neutral m \<longleftrightarrow> (\<forall>S T N. triple S T N m (\<lambda>r S' T' N'. S' = S \<and> r \<noteq> Rerun))"



text \<open>The widgets with their default values and no button clicked.\<close>

definition W0 :: widgets where
  "W0 = \<lparr>radio_value = Automatische_Segmentierung, text_input_value = ''tree'',
          box_slider_value = 0.24, text_slider_value = 0.24,
          left_value = 13.38, bottom_value = 52.46436, right_value = 13.3832,
          top_value = 52.4672, run_clicked = False, reset_clicked = False\<rparr>"

text \<open>The world after an automatic run.\<close>

definition world_results :: world where
  "world_results =
     \<lparr>session = [''results'' \<mapsto> PDict (automatic_record ''Automatische Segmentierung'' 0),
                 ''map_visible'' \<mapsto> PBool False],
      files = [''satellite.tif'' \<mapsto> File (Raw ''tile''), ''masks.tif'' \<mapsto> File (Raw ''mask''),
               ''visualization.png'' \<mapsto> File (Raw ''png'')],
      trace = [], next_handle = 1\<rparr>"



text \<open>The calls of an execution that shows the input screen only: page, map, sidebar,
  bounding box fields and the run button.\<close>

definition input_screen_calls :: "widgets \<Rightarrow> ext_call list" where
  "input_screen_calls W =
     [St_set_page_config, St_title,
      Leafmap_Map (Some [52.4658, 13.3825]) (Some 18) 700, Add_basemap ''SATELLITE'',
      To_streamlit (Some 500) ''main_map'',
      St_sidebar,
      St_header ([CHR 0xE2, CHR 0x9A, CHR 0x99, CHR 0xEF, CHR 0xB8, CHR 0x8F] @ '' Einstellungen''),
      St_radio]
     @ (if radio_value W = Text_Prompt_Suche
        then [St_text_input, St_slider ''Box Threshold'', St_slider ''Text Threshold'']
        else [])
     @ [St_header '' Bounding Box festlegen'', St_columns 4,
        St_number_input ''Left (West)'',
        St_number_input (''Bottom (S'' @ [CHR 0xC3, CHR 0xBC] @ ''d)''),
        St_number_input ''Right (Ost)'', St_number_input ''Top (Nord)'',
        St_info [left_value W, bottom_value W, right_value W, top_value W],
        St_button ''Starte Segmentierung'']"

text \<open>What the specification says of a run, as a function of the libraries alone: the calls
  of the list are made in order, each on the trace and the files the previous ones left,
  and the first call that raises ends the run. The result is that call (or None when no
  call raises), with the trace and the files at the end. Reading the clock cannot raise.\<close>

fun first_raising_call ::
  "env \<Rightarrow> ext_call list \<Rightarrow> ext_call list \<Rightarrow> fs \<Rightarrow> ext_call option \<times> ext_call list \<times> fs" where
  "first_raising_call E [] tr f = (None, tr, f)"
| "first_raising_call E (c # cs) tr f =
     (if c = Time_time then first_raising_call E cs (tr @ [c]) f
      else if fst (lib E c tr f) then first_raising_call E cs (tr @ [c]) (snd (lib E c tr f))
      else (Some c, tr @ [c], snd (lib E c tr f)))"

text \<open>The calls of a complete run after the first spinner, for each mode.\<close>

definition run_calls ::
  "radio_option \<Rightarrow> real list \<Rightarrow> nat \<Rightarrow> string \<Rightarrow> real \<Rightarrow> real \<Rightarrow> ext_call list" where
  "run_calls mode bbox N text_prompt box_threshold text_threshold =
     [Map_tiles_to_geotiff tiff_path bbox 18 ''Satellite'' True,
      St_spinner (spinner_text mode text_prompt),
      Time_time]
     @ (case mode of
          Automatische_Segmentierung \<Rightarrow> automatic_calls N
        | Text_Prompt_Suche \<Rightarrow> text_prompt_calls N text_prompt box_threshold text_threshold)
     @ [Time_time]"

text \<open>A program agrees with a list of calls when, from any world with the given trace, files
  and object counter, it ends as the first raising call of the list says: it raises that
  call's exception, or no call raises and it ends in the rerun.\<close>

definition agrees ::
  "env \<Rightarrow> ext_call list \<Rightarrow> ext_call list \<Rightarrow> fs \<Rightarrow> nat \<Rightarrow> 'a prog \<Rightarrow> bool" where
  "agrees E L T F N m \<longleftrightarrow>
     (\<forall>w. trace w = T \<and> files w = F \<and> next_handle w = N \<longrightarrow>
        (case first_raising_call E L T F of
           (fc, tr, f) \<Rightarrow>
             fst (m w) = (case fc of Some c \<Rightarrow> Raised (LibraryError c) | None \<Rightarrow> Rerun)
             \<and> trace (snd (m w)) = (case fc of Some c \<Rightarrow> tr | None \<Rightarrow> tr @ [St_rerun])
             \<and> files (snd (m w)) = f))"

text \<open>A path that names a file of the working directory: not empty, no slash, no NUL
  character, not \<^verbatim>\<open>.\<close> or \<^verbatim>\<open>..\<close>, at most 255 bytes.\<close>

definition plain_file_name :: "path \<Rightarrow> bool" where
  "plain_file_name p \<longleftrightarrow>
     p \<noteq> [] \<and> CHR ''/'' \<notin> set p \<and> CHR 0x00 \<notin> set p \<and> p \<noteq> ''.'' \<and> p \<noteq> ''..''
     \<and> length p \<le> 255"

section \<open>Properties\<close>

subsection \<open>Sequencing\<close>

lemma bind_ret [simp]: "bind (ret x) f = f x"
  by (rule ext) (simp add: bind_def ret_def)

lemma bind_raise [simp]: "bind (raise e) f = raise e"
  by (rule ext) (simp add: bind_def raise_def)

subsection \<open>The archive export\<close>




lemma parent_exists_bare: "CHR ''/'' \<notin> set p \<Longrightarrow> parent_exists f p"
proof -
  assume "CHR ''/'' \<notin> set p"
  then have "dropWhile (\<lambda>c. c \<noteq> CHR ''/'') (rev p) = []"
    by auto
  then show ?thesis
    by (simp add: parent_exists_def os_path_dirname_def os_path_dirpart_def)
qed

lemma no_slash_basename: "CHR ''/'' \<notin> set p \<Longrightarrow> os_path_basename p = p"
proof -
  assume "CHR ''/'' \<notin> set p"
  then have "takeWhile (\<lambda>c. c \<noteq> CHR ''/'') (rev p) = rev p"
    by auto
  then show ?thesis
    by (simp only: os_path_basename_def rev_rev_ident)
qed

lemma no_slash_strip: "CHR ''/'' \<notin> set p \<Longrightarrow> strip_slashes p = p"
proof -
  assume "CHR ''/'' \<notin> set p"
  then have "dropWhile (\<lambda>c. c = CHR ''/'') (rev p) = rev p"
    by (cases "rev p") auto
  then show ?thesis
    by (simp only: strip_slashes_def rev_rev_ident)
qed

lemma zipfile_open_w_bare:
  assumes "plain_file_name zip_path" and "files w zip_path \<noteq> Some Dir"
  shows "zipfile_open_w zip_path w =
         (Returned (), w\<lparr>files := (files w)(zip_path \<mapsto> File (ZipOf []))\<rparr>)"
proof -
  from assms(1) have slash: "CHR ''/'' \<notin> set zip_path"
    by (simp add: plain_file_name_def)
  from assms show ?thesis
    by (simp add: zipfile_open_w_def no_slash_strip[OF slash] no_slash_basename[OF slash]
        parent_exists_bare[OF slash] plain_file_name_def)
qed




text \<open>Outside these hypotheses the export can raise: the archive cannot be created in a
  directory that is missing.\<close>

lemma create_shapefile_zip_missing_directory:
  "create_shapefile_zip ''masks.shp'' ''nodir/out.zip'' (world0 Map.empty)
   = (Raised (FileNotFoundError ''nodir/out.zip''), world0 Map.empty)"
  by (simp add: create_shapefile_zip_def bind_def zipfile_open_w_def parent_exists_def
      strip_slashes_def os_path_dirname_def os_path_dirpart_def world0_def Let_def)

subsection \<open>The removal of old files\<close>

lemma cleanup_frame:
  "cleanup ps w = (r, w') \<Longrightarrow>
     session w' = session w \<and> trace w' = trace w \<and> next_handle w' = next_handle w \<and>
     (\<forall>p. files w' p = files w p \<or> (p \<in> set ps \<and> files w' p = None))"
proof (induction ps arbitrary: w)
  case Nil
  then show ?case by (simp add: ret_def)
next
  case (Cons q ps)
  show ?case
  proof (cases "files w q")
    case None
    with Cons.prems have "cleanup ps w = (r, w')"
      by (simp add: bind_def os_path_exists_def ret_def)
    from Cons.IH[OF this] show ?thesis by auto
  next
    case (Some n)
    show ?thesis
    proof (cases n)
      case Dir
      with Some Cons.prems show ?thesis
        by (simp add: bind_def os_path_exists_def os_remove_def)
    next
      case (File b)
      with Some Cons.prems have "cleanup ps (w\<lparr>files := (files w)(q := None)\<rparr>) = (r, w')"
        by (simp add: bind_def os_path_exists_def os_remove_def)
      from Cons.IH[OF this]
      have same: "session w' = session w" "trace w' = trace w" "next_handle w' = next_handle w"
        and fr: "files w' p = (if p = q then None else files w p) \<or> (p \<in> set ps \<and> files w' p = None)" for p
        by auto
      have "files w' p = files w p \<or> (p \<in> set (q # ps) \<and> files w' p = None)" for p
        using fr[of p] by (auto split: if_splits)
      with same show ?thesis by blast
    qed
  qed
qed

lemma cleanup_ok:
  "\<forall>p \<in> set ps. files w p \<noteq> Some Dir \<Longrightarrow>
   cleanup ps w = (Returned (), w\<lparr>files := files w |` (- set ps)\<rparr>)"
proof (induction ps arbitrary: w)
  case Nil
  then show ?case by (simp add: ret_def)
next
  case (Cons q ps)
  show ?case
  proof (cases "files w q")
    case None
    have step: "cleanup (q # ps) w = cleanup ps w"
      using None by (simp add: bind_def os_path_exists_def ret_def)
    have restr: "files w |` (- set (q # ps)) = files w |` (- set ps)"
      using None by (auto simp: restrict_map_def fun_eq_iff)
    have "cleanup ps w = (Returned (), w\<lparr>files := files w |` (- set ps)\<rparr>)"
      by (rule Cons.IH) (use Cons.prems in auto)
    then show ?thesis unfolding step restr .
  next
    case (Some n)
    with Cons.prems obtain b where n: "n = File b"
      by (cases n) auto
    define w1 where "w1 = w\<lparr>files := (files w)(q := None)\<rparr>"
    have step: "cleanup (q # ps) w = cleanup ps w1"
      using Some n by (simp add: bind_def os_path_exists_def os_remove_def w1_def)
    have world: "w1\<lparr>files := files w1 |` (- set ps)\<rparr> = w\<lparr>files := files w |` (- set (q # ps))\<rparr>"
      by (auto simp: w1_def restrict_map_def fun_eq_iff)
    have "cleanup ps w1 = (Returned (), w1\<lparr>files := files w1 |` (- set ps)\<rparr>)"
      by (rule Cons.IH) (use Cons.prems in \<open>auto simp: w1_def\<close>)
    then show ?thesis unfolding step world .
  qed
qed

lemma cleanup_dir:
  "\<exists>p \<in> set ps. files w p = Some Dir \<Longrightarrow>
   \<exists>p \<in> set ps. files w p = Some Dir \<and> fst (cleanup ps w) = Raised (IsADirectoryError p)"
proof (induction ps arbitrary: w)
  case Nil
  then show ?case by simp
next
  case (Cons q ps)
  show ?case
  proof (cases "files w q")
    case None
    have step: "cleanup (q # ps) w = cleanup ps w"
      using None by (simp add: bind_def os_path_exists_def ret_def)
    from Cons.prems None have "\<exists>p \<in> set ps. files w p = Some Dir" by auto
    from Cons.IH[OF this] show ?thesis unfolding step by auto
  next
    case (Some n)
    show ?thesis
    proof (cases n)
      case Dir
      with Some show ?thesis
        by (simp add: bind_def os_path_exists_def os_remove_def)
    next
      case (File b)
      define w1 where "w1 = w\<lparr>files := (files w)(q := None)\<rparr>"
      have step: "cleanup (q # ps) w = cleanup ps w1"
        using Some File by (simp add: bind_def os_path_exists_def os_remove_def w1_def)
      from Cons.prems obtain d where d: "d \<in> set (q # ps)" "files w d = Some Dir"
        by blast
      with Some File have "d \<noteq> q" by auto
      with d have "\<exists>p \<in> set ps. files w1 p = Some Dir"
        by (auto simp: w1_def)
      from Cons.IH[OF this] obtain p where
        p: "p \<in> set ps" "files w1 p = Some Dir" "fst (cleanup ps w1) = Raised (IsADirectoryError p)"
        by auto
      from p(2) have "files w p = Some Dir"
        by (auto simp: w1_def split: if_splits)
      with p show ?thesis unfolding step by auto
    qed
  qed
qed

text \<open>
  Claim C10. The removal loop over the three fixed paths changes no other path: every path
  keeps its file, or it is one of \<^verbatim>\<open>satellite.tif\<close>, \<^verbatim>\<open>masks.tif\<close>, \<^verbatim>\<open>masks.shp\<close> and is
  gone. In particular the visualization image, the archive and the three sidecar files
  \<^verbatim>\<open>masks.shx\<close>, \<^verbatim>\<open>masks.dbf\<close>, \<^verbatim>\<open>masks.prj\<close> of an earlier run are still there.
\<close>

theorem cleanup_touches_only_three:
  assumes "cleanup [tiff_path, mask_path, vector_path] w = (r, w')"
  shows "(\<forall>p. files w' p = files w p \<or>
              (p \<in> {''satellite.tif'', ''masks.tif'', ''masks.shp''} \<and> files w' p = None))
         \<and> files w' ''visualization.png'' = files w ''visualization.png''
         \<and> files w' ''segmentation_shp.zip'' = files w ''segmentation_shp.zip''
         \<and> files w' ''masks.shx'' = files w ''masks.shx''
         \<and> files w' ''masks.dbf'' = files w ''masks.dbf''
         \<and> files w' ''masks.prj'' = files w ''masks.prj''"
proof -
  from cleanup_frame[OF assms]
  have frame: "files w' p = files w p \<or>
               (p \<in> {''satellite.tif'', ''masks.tif'', ''masks.shp''} \<and> files w' p = None)" for p
    by (auto simp: tiff_path_def mask_path_def vector_path_def)
  show ?thesis
    using frame[of "''visualization.png''"] frame[of "''segmentation_shp.zip''"]
      frame[of "''masks.shx''"] frame[of "''masks.dbf''"] frame[of "''masks.prj''"] frame
    by auto
qed

theorem cleanup_touches_only_three_witness:
  "files (snd (cleanup [tiff_path, mask_path, vector_path] (world0 stale_files))) ''masks.shx''
     = Some (File (Raw ''old shx''))
   \<and> files (snd (cleanup [tiff_path, mask_path, vector_path] (world0 stale_files))) ''visualization.png''
     = Some (File (Raw ''old png''))"
  using cleanup_touches_only_three [where w = "world0 stale_files", OF surjective_pairing]
  by (simp add: world0_def stale_files_def)

text \<open>A sidecar file that an earlier run left behind goes into the next archive, beside a
  new \<^verbatim>\<open>masks.shp\<close>.\<close>

lemma stale_sidecar_example:
  "files (snd (create_shapefile_zip vector_path ''segmentation_shp.zip''
      (world0 [''masks.shx'' \<mapsto> File (Raw ''old shx''),
               ''visualization.png'' \<mapsto> File (Raw ''old png''),
               ''masks.shp'' \<mapsto> File (Raw ''new shp'')]))) ''segmentation_shp.zip''
   = Some (File (ZipOf [(''masks.shp'', Raw ''new shp''), (''masks.shx'', Raw ''old shx'')]))"
  by (simp add: create_shapefile_zip_def vector_path_def os_path_splitext_def os_path_basename_def
      os_path_dirpart_def extensions_def bind_def zipfile_open_w_def os_path_exists_def
      os_path_dirname_def parent_exists_def strip_slashes_def zipf_write_def zip_append_def
      ret_def world0_def Let_def)

text \<open>
  Claim C3, as amended. The first spinner block removes the three fixed paths before it
  downloads the tile: when none of the three paths is a directory, the downloader is called
  once, on files where none of the three paths exists. A removal that fails is not ignored:
  when one of the paths is a directory, \<^verbatim>\<open>os.remove\<close> raises, the exception leaves the block
  and the downloader is not called.
\<close>

theorem download_tile_after_cleanup:
  assumes "download_tile E bbox w = (r, w')"
  shows "if \<exists>p \<in> set [tiff_path, mask_path, vector_path]. files w p = Some Dir
         then (\<exists>p \<in> set [tiff_path, mask_path, vector_path].
                 files w p = Some Dir \<and> r = Raised (IsADirectoryError p))
              \<and> trace w' = trace w
         else (let dl = Map_tiles_to_geotiff tiff_path bbox 18 ''Satellite'' True;
                   res = lib E dl (trace w) (files w |` (- set [tiff_path, mask_path, vector_path]))
               in r = (if fst res then Returned () else Raised (LibraryError dl))
                  \<and> files w' = snd res \<and> trace w' = trace w @ [dl])"
proof (cases "\<exists>p \<in> set [tiff_path, mask_path, vector_path]. files w p = Some Dir")
  case True
  from cleanup_dir[OF True] obtain p where
    p: "p \<in> set [tiff_path, mask_path, vector_path]" "files w p = Some Dir"
       "fst (cleanup [tiff_path, mask_path, vector_path] w) = Raised (IsADirectoryError p)"
    by blast
  obtain w1 where w1: "cleanup [tiff_path, mask_path, vector_path] w = (Raised (IsADirectoryError p), w1)"
    using p(3) by (cases "cleanup [tiff_path, mask_path, vector_path] w") auto
  from cleanup_frame[OF w1] have "trace w1 = trace w" by simp
  moreover from assms w1 have "r = Raised (IsADirectoryError p)" "w' = w1"
    by (simp_all add: download_tile_def bind_def)
  ultimately show ?thesis using True p by auto
next
  case False
  then have "cleanup [tiff_path, mask_path, vector_path] w =
             (Returned (), w\<lparr>files := files w |` (- set [tiff_path, mask_path, vector_path])\<rparr>)"
    by (intro cleanup_ok) auto
  with assms False show ?thesis
    by (auto simp: download_tile_def bind_def call_def Let_def split: prod.splits)
qed

theorem download_tile_after_cleanup_witness:
  "trace (snd (download_tile E0 bbox0 (world0 stale_files)))
     = [Map_tiles_to_geotiff tiff_path bbox0 18 ''Satellite'' True]
   \<and> files (snd (download_tile E0 bbox0 (world0 stale_files))) ''satellite.tif'' = None
   \<and> fst (download_tile E0 bbox0 (world0 [''masks.tif'' \<mapsto> Dir])) = Raised (IsADirectoryError ''masks.tif'')"
  using download_tile_after_cleanup [where E = E0 and bbox = bbox0 and w = "world0 stale_files",
      OF surjective_pairing]
    download_tile_after_cleanup [where E = E0 and bbox = bbox0 and w = "world0 [''masks.tif'' \<mapsto> Dir]",
      OF surjective_pairing]
  by (auto simp: world0_def stale_files_def E0_def Let_def tiff_path_def mask_path_def vector_path_def
        restrict_map_def)

text \<open>Claim C3 as stated fails: with a directory at \<^verbatim>\<open>masks.tif\<close> the run stops with the
  exception of \<^verbatim>\<open>os.remove\<close>, after the spinner and before any download.\<close>

theorem removal_failure_aborts_run:
  "run_segmentation E0 bbox0 ''Automatische Segmentierung'' None (world0 [''masks.tif'' \<mapsto> Dir])
   = (Raised (IsADirectoryError ''masks.tif''),
      (world0 [''masks.tif'' \<mapsto> Dir])\<lparr>trace := [St_spinner ''Lade Satellitenbild...'']\<rparr>)"
  by (simp add: run_segmentation_def download_tile_def bind_def call_def E0_def world0_def
      os_path_exists_def os_remove_def ret_def tiff_path_def mask_path_def vector_path_def)

subsection \<open>Symbolic execution\<close>

lemma tripleD:
  assumes "triple S T N m Q" and "m w = (r, w')"
    and "session w = S" and "trace w = T" and "next_handle w = N"
  shows "Q r (session w') (trace w') (next_handle w')"
  using assms unfolding triple_def by fastforce

lemma triple_bind:
  assumes "triple S T N m (\<lambda>r S' T' N'. case r of
              Returned x \<Rightarrow> triple S' T' N' (f x) Q
            | Raised e \<Rightarrow> Q (Raised e) S' T' N'
            | Rerun \<Rightarrow> Q Rerun S' T' N')"
  shows "triple S T N (bind m f) Q"
  using assms unfolding triple_def bind_def
  by (auto split: prod.splits result.splits)

lemma bind_assoc: "bind (bind m f) g = bind m (\<lambda>x. bind (f x) g)"
  by (rule ext) (simp add: bind_def split: prod.splits result.splits)

lemma triple_call:
  assumes "Q (Raised (LibraryError c)) S (T @ [c]) N" and "Q (Returned ()) S (T @ [c]) N"
  shows "triple S T N (call E c) Q"
  using assms unfolding triple_def call_def by (auto split: prod.splits)

lemma triple_bind_call:
  assumes "Q (Raised (LibraryError c)) S (T @ [c]) N" and "triple S (T @ [c]) N (f ()) Q"
  shows "triple S T N (bind (call E c) f) Q"
  by (rule triple_bind, rule triple_call) (use assms in simp_all)

lemma triple_time:
  assumes "Q (Returned (clock E (length T))) S (T @ [Time_time]) N"
  shows "triple S T N (time_time E) Q"
  using assms unfolding triple_def time_time_def by auto

lemma triple_bind_time:
  assumes "triple S (T @ [Time_time]) N (f (clock E (length T))) Q"
  shows "triple S T N (bind (time_time E) f) Q"
  by (rule triple_bind, rule triple_time) (use assms in simp)

lemma triple_construct:
  assumes "Q (Raised (LibraryError (Construct cfg))) S (T @ [Construct cfg]) N"
    and "Q (Returned (Handle N cfg)) S (T @ [Construct cfg]) (Suc N)"
  shows "triple S T N (construct E cfg) Q"
  unfolding construct_def
  by (rule triple_bind_call) (use assms in \<open>auto simp: triple_def\<close>)

lemma triple_bind_construct:
  assumes "Q (Raised (LibraryError (Construct cfg))) S (T @ [Construct cfg]) N"
    and "triple S (T @ [Construct cfg]) (Suc N) (f (Handle N cfg)) Q"
  shows "triple S T N (bind (construct E cfg) f) Q"
  by (rule triple_bind, rule triple_construct) (use assms in simp_all)

lemma triple_session_set:
  assumes "Q (Returned ()) (S(k \<mapsto> v)) T N"
  shows "triple S T N (session_set k v) Q"
  using assms unfolding triple_def session_set_def by auto

lemma triple_bind_session_set:
  assumes "triple (S(k \<mapsto> v)) T N (f ()) Q"
  shows "triple S T N (bind (session_set k v) f) Q"
  by (rule triple_bind, rule triple_session_set) (use assms in simp)

lemma triple_rerun:
  assumes "Q Rerun S (T @ [St_rerun]) N"
  shows "triple S T N st_rerun Q"
  using assms unfolding triple_def st_rerun_def by auto

lemma triple_ret:
  assumes "Q (Returned x) S T N"
  shows "triple S T N (ret x) Q"
  using assms unfolding triple_def ret_def by auto

lemma triple_raise:
  assumes "Q (Raised e) S T N"
  shows "triple S T N (raise e) Q"
  using assms unfolding triple_def raise_def by auto

lemma cleanup_result:
  "fst (cleanup ps w) = Returned () \<or> (\<exists>p. fst (cleanup ps w) = Raised (IsADirectoryError p))"
proof (cases "\<exists>p \<in> set ps. files w p = Some Dir")
  case True
  from cleanup_dir[OF this] show ?thesis by blast
next
  case False
  then have "cleanup ps w = (Returned (), w\<lparr>files := files w |` (- set ps)\<rparr>)"
    by (intro cleanup_ok) auto
  then show ?thesis by simp
qed

lemma triple_cleanup:
  assumes "\<And>p. Q (Raised (IsADirectoryError p)) S T N" and "Q (Returned ()) S T N"
  shows "triple S T N (cleanup ps) Q"
  unfolding triple_def
proof (intro allI impI)
  fix w :: world assume w: "session w = S \<and> trace w = T \<and> next_handle w = N"
  from cleanup_frame[where ps = ps and w = w, OF surjective_pairing] w
  have "session (snd (cleanup ps w)) = S" "trace (snd (cleanup ps w)) = T"
    "next_handle (snd (cleanup ps w)) = N"
    by simp_all
  with cleanup_result[of ps w] assms
  show "Q (fst (cleanup ps w)) (session (snd (cleanup ps w))) (trace (snd (cleanup ps w)))
          (next_handle (snd (cleanup ps w)))"
    by auto
qed

lemma triple_bind_download_tile:
  assumes "\<And>p. Q (Raised (IsADirectoryError p)) S T N"
    and "Q (Raised (LibraryError (Map_tiles_to_geotiff tiff_path bbox 18 ''Satellite'' True))) S
           (T @ [Map_tiles_to_geotiff tiff_path bbox 18 ''Satellite'' True]) N"
    and "triple S (T @ [Map_tiles_to_geotiff tiff_path bbox 18 ''Satellite'' True]) N (f ()) Q"
  shows "triple S T N (bind (download_tile E bbox) f) Q"
  unfolding download_tile_def
  by (rule triple_bind, rule triple_bind, rule triple_cleanup)
     (use assms in \<open>auto intro!: triple_call\<close>)

lemmas vcg = triple_bind_call triple_bind_time triple_bind_construct triple_bind_session_set
  triple_bind_download_tile triple_session_set triple_rerun triple_ret triple_raise triple_call

subsection \<open>The run button\<close>

lemma run_segmentation_automatic:
  "triple S T N (run_segmentation E bbox ''Automatische Segmentierung'' pv) (\<lambda>r S' T' N'.
     case r of
       Returned _ \<Rightarrow> False
     | Raised e \<Rightarrow> S' = S
     | Rerun \<Rightarrow>
         S' = S(''results'' \<mapsto> PDict (automatic_record ''Automatische Segmentierung''
                 (clock E (length (T @ tile_calls bbox ''Segmentiere Objekte...'' @ [Time_time]
                                     @ automatic_calls N))
                  - clock E (length (T @ tile_calls bbox ''Segmentiere Objekte...'')))),
               ''map_visible'' \<mapsto> PBool False)
         \<and> T' = T @ tile_calls bbox ''Segmentiere Objekte...'' @ [Time_time] @ automatic_calls N
                  @ [Time_time, St_rerun]
         \<and> N' = Suc N)"
  unfolding run_segmentation_def run_automatic_def Let_def if_True refl
  apply (simp only: refl if_True bind_assoc)
  apply (intro vcg)
  apply (simp_all add: tile_calls_def automatic_calls_def automatic_record_def vit_h_cfg_def
       tiff_path_def mask_path_def vector_path_def)
  done

lemma run_segmentation_text_prompt:
  assumes "pt \<noteq> ''Automatische Segmentierung''"
  shows "triple S T N (run_segmentation E bbox pt (Some (p, bt, tt))) (\<lambda>r S' T' N'.
     case r of
       Returned _ \<Rightarrow> False
     | Raised e \<Rightarrow> S' = S
     | Rerun \<Rightarrow>
         S' = S(''results'' \<mapsto> PDict
                 (text_prompt_record pt p
                    (clock E (length (T @ tile_calls bbox (spinner_text Text_Prompt_Suche p)
                                        @ [Time_time] @ text_prompt_calls N p bt tt))
                     - clock E (length (T @ tile_calls bbox (spinner_text Text_Prompt_Suche p))))
                    (Handle N LangSAMCfg)),
               ''map_visible'' \<mapsto> PBool False)
         \<and> T' = T @ tile_calls bbox (spinner_text Text_Prompt_Suche p) @ [Time_time]
                  @ text_prompt_calls N p bt tt @ [Time_time, St_rerun]
         \<and> N' = Suc N)"
  unfolding run_segmentation_def run_text_prompt_def Let_def
  apply (simp only: assms if_False option.case prod.case bind_assoc)
  apply (intro vcg)
  apply (simp_all add: tile_calls_def text_prompt_calls_def text_prompt_record_def spinner_text_def
       tiff_path_def mask_path_def vector_path_def)
  done

lemma run_segmentation_undefined_prompt:
  assumes "pt \<noteq> ''Automatische Segmentierung''"
  shows "triple S T N (run_segmentation E bbox pt None) (\<lambda>r S' T' N'.
     case r of Returned _ \<Rightarrow> False | Raised e \<Rightarrow> S' = S | Rerun \<Rightarrow> False)"
  unfolding run_segmentation_def
  apply (simp only: assms if_False option.case)
  apply (simp only: bind_raise)
  apply (intro vcg)
  apply simp_all
  done


lemma run_segmentation_cases:
  assumes "run_segmentation E bbox pt pv w = (r, w')"
  shows "(\<exists>e. r = Raised e \<and> session w' = session w)
       \<or> (r = Rerun \<and> pt = ''Automatische Segmentierung''
          \<and> session w' = (session w)
               (''results'' \<mapsto> PDict (automatic_record pt
                  (clock E (length (trace w @ tile_calls bbox ''Segmentiere Objekte...''
                                      @ [Time_time] @ automatic_calls (next_handle w)))
                   - clock E (length (trace w @ tile_calls bbox ''Segmentiere Objekte...'')))),
                ''map_visible'' \<mapsto> PBool False)
          \<and> trace w' = trace w @ tile_calls bbox ''Segmentiere Objekte...'' @ [Time_time]
                @ automatic_calls (next_handle w) @ [Time_time, St_rerun]
          \<and> next_handle w' = Suc (next_handle w))
       \<or> (r = Rerun \<and> pt \<noteq> ''Automatische Segmentierung''
          \<and> (\<exists>p bt tt. pv = Some (p, bt, tt)
               \<and> session w' = (session w)
                    (''results'' \<mapsto> PDict (text_prompt_record pt p
                       (clock E (length (trace w @ tile_calls bbox (spinner_text Text_Prompt_Suche p)
                                           @ [Time_time] @ text_prompt_calls (next_handle w) p bt tt))
                        - clock E (length (trace w @ tile_calls bbox (spinner_text Text_Prompt_Suche p))))
                       (Handle (next_handle w) LangSAMCfg)),
                     ''map_visible'' \<mapsto> PBool False)
               \<and> trace w' = trace w @ tile_calls bbox (spinner_text Text_Prompt_Suche p) @ [Time_time]
                     @ text_prompt_calls (next_handle w) p bt tt @ [Time_time, St_rerun])
          \<and> next_handle w' = Suc (next_handle w))"
proof (cases "pt = ''Automatische Segmentierung''")
  case True
  from tripleD[OF run_segmentation_automatic assms[unfolded True] refl refl refl]
  show ?thesis using True by (cases r) auto
next
  case False
  show ?thesis
  proof (cases pv)
    case None
    from tripleD[OF run_segmentation_undefined_prompt[OF False] assms[unfolded None] refl refl refl]
    show ?thesis by (cases r) auto
  next
    case (Some v)
    obtain p bt tt where v: "v = (p, bt, tt)" by (cases v) auto
    from tripleD[OF run_segmentation_text_prompt[OF False] assms[unfolded Some v] refl refl refl]
    show ?thesis using False Some v by (cases r) auto
  qed
qed

lemmas run_defs = run_segmentation_def run_automatic_def run_text_prompt_def download_tile_def
  bind_def call_def time_time_def construct_def session_set_def st_rerun_def ret_def raise_def
  os_path_exists_def os_remove_def tiff_path_def mask_path_def vector_path_def Let_def

text \<open>The run against the first raising call of its list of calls.\<close>

lemma first_raising_call_trace:
  "fst (first_raising_call E L T F) = None \<Longrightarrow> fst (snd (first_raising_call E L T F)) = T @ L"
proof (induction L arbitrary: T F)
  case Nil
  then show ?case by simp
next
  case (Cons c cs)
  show ?case
  proof (cases "c = Time_time")
    case True
    with Cons.prems have "fst (first_raising_call E cs (T @ [c]) F) = None"
      by simp
    from Cons.IH[OF this] True show ?thesis by simp
  next
    case False
    with Cons.prems have ok: "fst (lib E c T F)"
      by (auto split: if_splits)
    with False Cons.prems
    have "fst (first_raising_call E cs (T @ [c]) (snd (lib E c T F))) = None"
      by simp
    from Cons.IH[OF this] False ok show ?thesis by simp
  qed
qed

lemma first_raising_call_none:
  "first_raising_call E L T F = (None, tr, f) \<Longrightarrow> tr = T @ L"
  using first_raising_call_trace[of E L T F] by simp

lemma gen_call:
  "bind (call E c) f w =
     (if fst (lib E c (trace w) (files w))
      then f () (w\<lparr>files := snd (lib E c (trace w) (files w)), trace := trace w @ [c]\<rparr>)
      else (Raised (LibraryError c),
            w\<lparr>files := snd (lib E c (trace w) (files w)), trace := trace w @ [c]\<rparr>))"
  by (cases "lib E c (trace w) (files w)") (simp add: bind_def call_def)

lemma gen_construct:
  "bind (construct E cfg) f w =
     (if fst (lib E (Construct cfg) (trace w) (files w))
      then f (Handle (next_handle w) cfg)
             (w\<lparr>files := snd (lib E (Construct cfg) (trace w) (files w)),
                trace := trace w @ [Construct cfg], next_handle := Suc (next_handle w)\<rparr>)
      else (Raised (LibraryError (Construct cfg)),
            w\<lparr>files := snd (lib E (Construct cfg) (trace w) (files w)),
              trace := trace w @ [Construct cfg]\<rparr>))"
  by (cases "lib E (Construct cfg) (trace w) (files w)") (simp add: construct_def bind_def call_def)

lemma agrees_call:
  assumes "c \<noteq> Time_time" and "agrees E cs (T @ [c]) (snd (lib E c T F)) N (f ())"
  shows "agrees E (c # cs) T F N (bind (call E c) f)"
  unfolding agrees_def
proof (intro allI impI)
  fix w :: world assume w: "trace w = T \<and> files w = F \<and> next_handle w = N"
  show "case first_raising_call E (c # cs) T F of
           (fc, tr, fl) \<Rightarrow>
             fst (bind (call E c) f w) = (case fc of Some c \<Rightarrow> Raised (LibraryError c) | None \<Rightarrow> Rerun)
             \<and> trace (snd (bind (call E c) f w)) = (case fc of Some c \<Rightarrow> tr | None \<Rightarrow> tr @ [St_rerun])
             \<and> files (snd (bind (call E c) f w)) = fl"
  proof (cases "fst (lib E c T F)")
    case True
    let ?w1 = "w\<lparr>files := snd (lib E c T F), trace := T @ [c]\<rparr>"
    have step: "bind (call E c) f w = f () ?w1"
      using True w by (simp add: gen_call)
    have "trace ?w1 = T @ [c] \<and> files ?w1 = snd (lib E c T F) \<and> next_handle ?w1 = N"
      using w by simp
    with assms(2) show ?thesis
      unfolding step using True assms(1) by (simp add: agrees_def)
  next
    case False
    with w assms(1) show ?thesis
      by (simp add: gen_call)
  qed
qed

lemma agrees_time:
  assumes "agrees E cs (T @ [Time_time]) F N (f (clock E (length T)))"
  shows "agrees E (Time_time # cs) T F N (bind (time_time E) f)"
  unfolding agrees_def
proof (intro allI impI)
  fix w :: world assume w: "trace w = T \<and> files w = F \<and> next_handle w = N"
  let ?w1 = "w\<lparr>trace := T @ [Time_time]\<rparr>"
  have step: "bind (time_time E) f w = f (clock E (length T)) ?w1"
    using w by (simp add: bind_def time_time_def)
  have "trace ?w1 = T @ [Time_time] \<and> files ?w1 = F \<and> next_handle ?w1 = N"
    using w by simp
  with assms show "case first_raising_call E (Time_time # cs) T F of
           (fc, tr, fl) \<Rightarrow>
             fst (bind (time_time E) f w) = (case fc of Some c \<Rightarrow> Raised (LibraryError c) | None \<Rightarrow> Rerun)
             \<and> trace (snd (bind (time_time E) f w)) = (case fc of Some c \<Rightarrow> tr | None \<Rightarrow> tr @ [St_rerun])
             \<and> files (snd (bind (time_time E) f w)) = fl"
    unfolding step by (simp add: agrees_def)
qed

lemma agrees_construct:
  assumes "agrees E cs (T @ [Construct cfg]) (snd (lib E (Construct cfg) T F)) (Suc N)
             (f (Handle N cfg))"
  shows "agrees E (Construct cfg # cs) T F N (bind (construct E cfg) f)"
  unfolding agrees_def
proof (intro allI impI)
  fix w :: world assume w: "trace w = T \<and> files w = F \<and> next_handle w = N"
  show "case first_raising_call E (Construct cfg # cs) T F of
           (fc, tr, fl) \<Rightarrow>
             fst (bind (construct E cfg) f w) = (case fc of Some c \<Rightarrow> Raised (LibraryError c) | None \<Rightarrow> Rerun)
             \<and> trace (snd (bind (construct E cfg) f w)) = (case fc of Some c \<Rightarrow> tr | None \<Rightarrow> tr @ [St_rerun])
             \<and> files (snd (bind (construct E cfg) f w)) = fl"
  proof (cases "fst (lib E (Construct cfg) T F)")
    case True
    let ?w1 = "w\<lparr>files := snd (lib E (Construct cfg) T F), trace := T @ [Construct cfg],
                 next_handle := Suc N\<rparr>"
    have step: "bind (construct E cfg) f w = f (Handle N cfg) ?w1"
      using True w by (simp add: gen_construct)
    have "trace ?w1 = T @ [Construct cfg] \<and> files ?w1 = snd (lib E (Construct cfg) T F)
          \<and> next_handle ?w1 = Suc N"
      by simp
    with assms show ?thesis
      unfolding step using True by (simp add: agrees_def)
  next
    case False
    with w show ?thesis
      by (simp add: gen_construct)
  qed
qed

lemma agrees_session_set:
  assumes "agrees E L T F N (f ())"
  shows "agrees E L T F N (bind (session_set k v) f)"
  using assms by (simp add: agrees_def bind_def session_set_def)

lemma agrees_rerun: "agrees E [] T F N st_rerun"
  by (simp add: agrees_def st_rerun_def)

lemmas agrees_steps = agrees_call agrees_time agrees_construct agrees_session_set agrees_rerun

lemma agrees_automatic:
  "agrees E (run_calls Automatische_Segmentierung bbox N p bt tt) T F N
     (bind (call E (Map_tiles_to_geotiff tiff_path bbox 18 ''Satellite'' True)) (\<lambda>_.
      bind (run_automatic E pt) (\<lambda>_.
      bind (session_set ''map_visible'' (PBool False)) (\<lambda>_. st_rerun))))"
  unfolding run_calls_def run_automatic_def automatic_calls_def vit_h_cfg_def spinner_text_def Let_def
  apply (simp only: bind_assoc append.simps radio_option.case)
  apply (intro agrees_steps)
  apply simp_all
  done

lemma agrees_text_prompt:
  "agrees E (run_calls Text_Prompt_Suche bbox N p bt tt) T F N
     (bind (call E (Map_tiles_to_geotiff tiff_path bbox 18 ''Satellite'' True)) (\<lambda>_.
      bind (run_text_prompt E pt p bt tt) (\<lambda>_.
      bind (session_set ''map_visible'' (PBool False)) (\<lambda>_. st_rerun))))"
  unfolding run_calls_def run_text_prompt_def text_prompt_calls_def spinner_text_def Let_def
  apply (simp only: bind_assoc append.simps radio_option.case)
  apply (intro agrees_steps)
  apply simp_all
  done

lemma agreesD:
  assumes "agrees E L T F N m" and "m w = (r, w')"
    and "trace w = T" and "files w = F" and "next_handle w = N"
    and "first_raising_call E L T F = (fc, tr, f)"
  shows "r = (case fc of Some c \<Rightarrow> Raised (LibraryError c) | None \<Rightarrow> Rerun)"
    and "trace w' = (case fc of Some c \<Rightarrow> tr | None \<Rightarrow> tr @ [St_rerun])"
    and "files w' = f"
  using assms unfolding agrees_def by fastforce+

lemma run_segmentation_mode:
  "run_segmentation E bbox (option_label mode)
     (case mode of Automatische_Segmentierung \<Rightarrow> None | Text_Prompt_Suche \<Rightarrow> Some (p, bt, tt))
   = bind (call E (St_spinner ''Lade Satellitenbild...'')) (\<lambda>_.
     bind (cleanup [tiff_path, mask_path, vector_path]) (\<lambda>_.
     bind (call E (Map_tiles_to_geotiff tiff_path bbox 18 ''Satellite'' True)) (\<lambda>_.
     bind (case mode of
             Automatische_Segmentierung \<Rightarrow> run_automatic E (option_label mode)
           | Text_Prompt_Suche \<Rightarrow> run_text_prompt E (option_label mode) p bt tt) (\<lambda>_.
     bind (session_set ''map_visible'' (PBool False)) (\<lambda>_. st_rerun)))))"
  by (cases mode) (simp_all add: run_segmentation_def download_tile_def bind_assoc)

lemma agrees_mode:
  "agrees E (run_calls mode bbox N p bt tt) T F N
     (bind (call E (Map_tiles_to_geotiff tiff_path bbox 18 ''Satellite'' True)) (\<lambda>_.
      bind (case mode of
              Automatische_Segmentierung \<Rightarrow> run_automatic E (option_label mode)
            | Text_Prompt_Suche \<Rightarrow> run_text_prompt E (option_label mode) p bt tt) (\<lambda>_.
      bind (session_set ''map_visible'' (PBool False)) (\<lambda>_. st_rerun))))"
  by (cases mode) (simp_all add: agrees_automatic agrees_text_prompt)

text \<open>
  Claim C1. The body of the run button, with the arguments the script passes to it, ends as
  the libraries decide, and in no other way. If entering the first spinner raises, the run
  raises that exception. Otherwise, if one of the three fixed paths is a directory, the
  removal raises. Otherwise the calls of the chosen branch are made in order, each on the
  files the previous ones left, and the first one that raises makes the run raise that very
  exception, with the trace ending at that call. In all these cases the session state is
  the one the run started with. Only when no call raises does the run end in the rerun:
  then every call of the branch has been made and has returned, and \<^verbatim>\<open>results\<close> and
  \<^verbatim>\<open>map_visible = False\<close> are written.
\<close>

theorem run_aborts_without_session_change:
  assumes "run_segmentation E bbox (option_label mode)
             (case mode of Automatische_Segmentierung \<Rightarrow> None
                         | Text_Prompt_Suche \<Rightarrow> Some (p, bt, tt)) w = (r, w')"
  shows "let spinner = St_spinner ''Lade Satellitenbild...'';
             entered = lib E spinner (trace w) (files w);
             old = [tiff_path, mask_path, vector_path];
             calls = run_calls mode bbox (next_handle w) p bt tt
         in if \<not> fst entered
            then r = Raised (LibraryError spinner) \<and> session w' = session w
            else if \<exists>path \<in> set old. snd entered path = Some Dir
            then (\<exists>path \<in> set old. r = Raised (IsADirectoryError path)) \<and> session w' = session w
            else (case first_raising_call E calls (trace w @ [spinner])
                         (snd entered |` (- set old)) of
                    (Some c, tr, f) \<Rightarrow>
                      r = Raised (LibraryError c) \<and> session w' = session w
                      \<and> trace w' = tr \<and> files w' = f
                  | (None, tr, f) \<Rightarrow>
                      r = Rerun \<and> tr = trace w @ [spinner] @ calls
                      \<and> trace w' = tr @ [St_rerun] \<and> files w' = f
                      \<and> (\<exists>rec. session w' = (session w)(''results'' \<mapsto> PDict rec,
                                                          ''map_visible'' \<mapsto> PBool False)))"
proof -
  define spinner where "spinner = St_spinner ''Lade Satellitenbild...''"
  define entered where "entered = lib E spinner (trace w) (files w)"
  define old where "old = [tiff_path, mask_path, vector_path]"
  define calls where "calls = run_calls mode bbox (next_handle w) p bt tt"
  define w1 where "w1 = w\<lparr>files := snd entered, trace := trace w @ [spinner]\<rparr>"
  define core where "core =
     bind (call E (Map_tiles_to_geotiff tiff_path bbox 18 ''Satellite'' True)) (\<lambda>_.
     bind (case mode of
             Automatische_Segmentierung \<Rightarrow> run_automatic E (option_label mode)
           | Text_Prompt_Suche \<Rightarrow> run_text_prompt E (option_label mode) p bt tt) (\<lambda>_.
     bind (session_set ''map_visible'' (PBool False)) (\<lambda>_. (st_rerun :: unit prog))))"
  have "run_segmentation E bbox (option_label mode)
             (case mode of Automatische_Segmentierung \<Rightarrow> None
                         | Text_Prompt_Suche \<Rightarrow> Some (p, bt, tt)) w
        = (if fst entered then bind (cleanup old) (\<lambda>_. core) w1
           else (Raised (LibraryError spinner), w1))"
    unfolding run_segmentation_mode
    by (simp only: gen_call spinner_def entered_def old_def w1_def core_def)
  with assms
  have run: "(r, w') = (if fst entered then bind (cleanup old) (\<lambda>_. core) w1
                        else (Raised (LibraryError spinner), w1))"
    by (simp only:)
  from run_segmentation_cases[OF assms]
  have sess: "(\<exists>e. r = Raised e) \<longrightarrow> session w' = session w"
    and written: "r = Rerun \<longrightarrow> (\<exists>rec. session w' = (session w)(''results'' \<mapsto> PDict rec,
                                                          ''map_visible'' \<mapsto> PBool False))"
    by auto
  have goal: "if \<not> fst entered
            then r = Raised (LibraryError spinner) \<and> session w' = session w
            else if \<exists>path \<in> set old. snd entered path = Some Dir
            then (\<exists>path \<in> set old. r = Raised (IsADirectoryError path)) \<and> session w' = session w
            else (case first_raising_call E calls (trace w @ [spinner])
                         (snd entered |` (- set old)) of
                    (Some c, tr, f) \<Rightarrow>
                      r = Raised (LibraryError c) \<and> session w' = session w
                      \<and> trace w' = tr \<and> files w' = f
                  | (None, tr, f) \<Rightarrow>
                      r = Rerun \<and> tr = trace w @ [spinner] @ calls
                      \<and> trace w' = tr @ [St_rerun] \<and> files w' = f
                      \<and> (\<exists>rec. session w' = (session w)(''results'' \<mapsto> PDict rec,
                                                          ''map_visible'' \<mapsto> PBool False)))"
  proof (cases "fst entered")
    case False
    with run have "r = Raised (LibraryError spinner)" by simp
    with sess False show ?thesis by simp
  next
    case True
    show ?thesis
    proof (cases "\<exists>path \<in> set old. snd entered path = Some Dir")
      case dir: True
      then have "\<exists>path \<in> set old. files w1 path = Some Dir"
        by (simp add: w1_def)
      from cleanup_dir[OF this] obtain path where
        path: "path \<in> set old" "fst (cleanup old w1) = Raised (IsADirectoryError path)"
        by blast
      then obtain w2 where "cleanup old w1 = (Raised (IsADirectoryError path), w2)"
        by (cases "cleanup old w1") auto
      with run True have "r = Raised (IsADirectoryError path)"
        by (simp add: bind_def)
      with sess path(1) True dir show ?thesis by auto
    next
      case nodir: False
      define w2 where "w2 = w1\<lparr>files := files w1 |` (- set old)\<rparr>"
      from nodir have "\<forall>path \<in> set old. files w1 path \<noteq> Some Dir"
        by (simp add: w1_def)
      then have "cleanup old w1 = (Returned (), w2)"
        unfolding w2_def by (rule cleanup_ok)
      with run True have core: "core w2 = (r, w')"
        by (simp add: bind_def)
      obtain fc tr f where frc: "first_raising_call E calls (trace w @ [spinner])
                         (snd entered |` (- set old)) = (fc, tr, f)"
        by (cases "first_raising_call E calls (trace w @ [spinner]) (snd entered |` (- set old))")
      have w2: "trace w2 = trace w @ [spinner]" "files w2 = snd entered |` (- set old)"
        "next_handle w2 = next_handle w"
        by (simp_all add: w2_def w1_def)
      have ag: "agrees E calls (trace w @ [spinner]) (snd entered |` (- set old)) (next_handle w) core"
        unfolding calls_def core_def by (rule agrees_mode)
      note res = agreesD[OF ag core w2 frc]
      show ?thesis
      proof (cases fc)
        case None
        with frc have "tr = (trace w @ [spinner]) @ calls"
          by (intro first_raising_call_none) simp
        with res None written frc True nodir show ?thesis by simp
      next
        case (Some c)
        with res sess frc True nodir show ?thesis by simp
      qed
    qed
  qed
  then show ?thesis
    unfolding spinner_def entered_def old_def calls_def Let_def .
qed

text \<open>
  \<^verbatim>\<open>generate\<close> raises after a partial write: the run raises that exception, the session
  state is still the initial one, and the partial file stays on disk.
\<close>

theorem run_aborts_without_session_change_witness:
  "fst (run_segmentation E_fail bbox0 ''Automatische Segmentierung'' None (world0 Map.empty))
     = Raised (LibraryError (Generate (Handle 0 vit_h_cfg) ''satellite.tif'' ''masks.tif'' True))
   \<and> session (snd (run_segmentation E_fail bbox0 ''Automatische Segmentierung'' None
                      (world0 Map.empty)))
     = [''results'' \<mapsto> PNone, ''map_visible'' \<mapsto> PBool True]
   \<and> files (snd (run_segmentation E_fail bbox0 ''Automatische Segmentierung'' None
                    (world0 Map.empty))) ''masks.tif''
     = Some (File (Raw ''partial''))"
  using run_aborts_without_session_change [where E = E_fail and bbox = bbox0
      and mode = Automatische_Segmentierung and w = "world0 Map.empty"
      and p = "[]" and bt = 0 and tt = 0, OF surjective_pairing]
  by (simp add: Let_def E_fail_def E0_def world0_def run_calls_def automatic_calls_def
      spinner_text_def vit_h_cfg_def tiff_path_def mask_path_def vector_path_def)



text \<open>
  Claim C4. When the body of the run button completes (it ends in the rerun), the session
  state is the old one with \<^verbatim>\<open>results\<close> set to the results dict and \<^verbatim>\<open>map_visible\<close> set to
  False, and the last call is \<^verbatim>\<open>st.rerun()\<close>. The dict has the four paths, the mode and the
  duration; it has the prompt and the model object constructed in this run if and only if
  the mode is the text-prompt one.
\<close>

theorem results_record_on_success:
  assumes "run_segmentation E bbox (option_label mode) pv w = (Rerun, w')"
  shows "\<exists>rec duration.
           session w' = (session w)(''results'' \<mapsto> PDict rec, ''map_visible'' \<mapsto> PBool False)
         \<and> last (trace w') = St_rerun
         \<and> (case mode of
               Automatische_Segmentierung \<Rightarrow>
                 rec = [(''tiff_path'', PStr ''satellite.tif''),
                        (''mask_path'', PStr ''masks.tif''),
                        (''vector_path'', PStr ''masks.shp''),
                        (''vis_path'', PStr ''visualization.png''),
                        (''process_type'', PStr ''Automatische Segmentierung''),
                        (''duration'', PFloat duration)]
             | Text_Prompt_Suche \<Rightarrow>
                 (\<exists>text_prompt box_threshold text_threshold.
                    pv = Some (text_prompt, box_threshold, text_threshold)
                  \<and> rec = [(''tiff_path'', PStr ''satellite.tif''),
                           (''mask_path'', PStr ''masks.tif''),
                           (''vector_path'', PStr ''masks.shp''),
                           (''vis_path'', PStr ''visualization.png''),
                           (''process_type'', PStr ''Text-Prompt Suche''),
                           (''text_prompt'', PStr text_prompt),
                           (''duration'', PFloat duration),
                           (''sam'', PObj (Handle (next_handle w) LangSAMCfg))]
                  \<and> Construct LangSAMCfg \<in> set (drop (length (trace w)) (trace w'))))
         \<and> (map_of rec ''text_prompt'' \<noteq> None \<longleftrightarrow> mode = Text_Prompt_Suche)
         \<and> (map_of rec ''sam'' \<noteq> None \<longleftrightarrow> mode = Text_Prompt_Suche)"
proof (cases mode)
  case Automatische_Segmentierung
  with run_segmentation_cases[OF assms] show ?thesis
    by (auto simp: automatic_record_def)
next
  case Text_Prompt_Suche
  with run_segmentation_cases[OF assms] show ?thesis
    by (auto simp: text_prompt_record_def text_prompt_calls_def)
qed

text \<open>
  A text-prompt run with prompt \<^verbatim>\<open>tree\<close> and thresholds 0.24.
\<close>

theorem results_record_on_success_witness:
  "session (snd (run_segmentation E0 bbox0 ''Text-Prompt Suche'' (Some (''tree'', 0.24, 0.24))
                   (world0 Map.empty)))
   = [''results'' \<mapsto> PDict
        [(''tiff_path'', PStr ''satellite.tif''),
         (''mask_path'', PStr ''masks.tif''),
         (''vector_path'', PStr ''masks.shp''),
         (''vis_path'', PStr ''visualization.png''),
         (''process_type'', PStr ''Text-Prompt Suche''),
         (''text_prompt'', PStr ''tree''),
         (''duration'', PFloat 0),
         (''sam'', PObj (Handle 0 LangSAMCfg))],
      ''map_visible'' \<mapsto> PBool False]"
proof -
  have run: "fst (run_segmentation E0 bbox0 (option_label Text_Prompt_Suche)
                    (Some (''tree'', 0.24, 0.24)) (world0 Map.empty)) = Rerun"
    and dur: "map_of (case session (snd (run_segmentation E0 bbox0 (option_label Text_Prompt_Suche)
                    (Some (''tree'', 0.24, 0.24)) (world0 Map.empty))) ''results'' of
                Some (PDict rec) \<Rightarrow> rec | _ \<Rightarrow> []) ''duration'' = Some (PFloat 0)"
    by (simp_all add: run_defs E0_def world0_def)
  from results_record_on_success [where E = E0 and bbox = bbox0 and mode = Text_Prompt_Suche
      and pv = "Some (''tree'', 0.24, 0.24)" and w = "world0 Map.empty"
      and w' = "snd (run_segmentation E0 bbox0 (option_label Text_Prompt_Suche)
                    (Some (''tree'', 0.24, 0.24)) (world0 Map.empty))"] run dur
  show ?thesis
    by (auto simp: world0_def prod_eq_iff)
qed

lemma duration_automatic_record: "map_of (automatic_record pt d) ''duration'' = Some (PFloat d)"
  by (simp add: automatic_record_def)

lemma duration_text_prompt_record: "map_of (text_prompt_record pt p d h) ''duration'' = Some (PFloat d)"
  by (simp add: text_prompt_record_def)

text \<open>
  Claim C8, as amended. On a successful run the stored duration is the second reading of
  \<^verbatim>\<open>time.time()\<close> minus the first. The first reading is taken after the tile download and
  the second spinner, the second after the model calls and the saving and closing of the
  visualization; nothing else lies between them. The duration is not negative exactly when
  the second reading is not smaller than the first. (Python floats are modelled by reals;
  the rounding of the subtraction does not change its sign.)
\<close>

theorem duration_is_clock_difference:
  assumes "run_segmentation E bbox (option_label mode) pv w = (Rerun, w')"
  shows "\<exists>text calls rec start stop.
           trace w' = trace w @ tile_calls bbox text @ [Time_time] @ calls @ [Time_time, St_rerun]
         \<and> (calls = automatic_calls (next_handle w)
            \<or> (\<exists>p bt tt. calls = text_prompt_calls (next_handle w) p bt tt))
         \<and> start = clock E (length (trace w @ tile_calls bbox text))
         \<and> stop = clock E (length (trace w @ tile_calls bbox text @ [Time_time] @ calls))
         \<and> session w' ''results'' = Some (PDict rec)
         \<and> map_of rec ''duration'' = Some (PFloat (stop - start))
         \<and> (0 \<le> stop - start \<longleftrightarrow> start \<le> stop)"
proof -
  have found: "\<exists>rec start stop.
           trace w' = trace w @ tile_calls bbox msg @ [Time_time] @ calls @ [Time_time, St_rerun]
         \<and> (calls = automatic_calls (next_handle w)
            \<or> (\<exists>p bt tt. calls = text_prompt_calls (next_handle w) p bt tt))
         \<and> start = clock E (length (trace w @ tile_calls bbox msg))
         \<and> stop = clock E (length (trace w @ tile_calls bbox msg @ [Time_time] @ calls))
         \<and> session w' ''results'' = Some (PDict rec)
         \<and> map_of rec ''duration'' = Some (PFloat (stop - start))
         \<and> (0 \<le> stop - start \<longleftrightarrow> start \<le> stop)"
    if tr: "trace w' = trace w @ tile_calls bbox msg @ [Time_time] @ calls @ [Time_time, St_rerun]"
      and calls: "calls = automatic_calls (next_handle w)
            \<or> (\<exists>p bt tt. calls = text_prompt_calls (next_handle w) p bt tt)"
      and rec: "session w' ''results'' = Some (PDict rec)"
      and dur: "map_of rec ''duration'' = Some (PFloat
                  (clock E (length (trace w @ tile_calls bbox msg @ [Time_time] @ calls))
                   - clock E (length (trace w @ tile_calls bbox msg))))"
    for msg calls rec
    using that by simp
  from run_segmentation_cases[OF assms] consider
    (automatic) "session w' = (session w)
               (''results'' \<mapsto> PDict (automatic_record (option_label mode)
                  (clock E (length (trace w @ tile_calls bbox ''Segmentiere Objekte...''
                                      @ [Time_time] @ automatic_calls (next_handle w)))
                   - clock E (length (trace w @ tile_calls bbox ''Segmentiere Objekte...'')))),
                ''map_visible'' \<mapsto> PBool False)"
       "trace w' = trace w @ tile_calls bbox ''Segmentiere Objekte...'' @ [Time_time]
                @ automatic_calls (next_handle w) @ [Time_time, St_rerun]"
  | (text_prompt) p bt tt where
       "session w' = (session w)
                    (''results'' \<mapsto> PDict (text_prompt_record (option_label mode) p
                       (clock E (length (trace w @ tile_calls bbox (spinner_text Text_Prompt_Suche p)
                                           @ [Time_time] @ text_prompt_calls (next_handle w) p bt tt))
                        - clock E (length (trace w @ tile_calls bbox (spinner_text Text_Prompt_Suche p))))
                       (Handle (next_handle w) LangSAMCfg)),
                     ''map_visible'' \<mapsto> PBool False)"
       "trace w' = trace w @ tile_calls bbox (spinner_text Text_Prompt_Suche p) @ [Time_time]
                     @ text_prompt_calls (next_handle w) p bt tt @ [Time_time, St_rerun]"
    by auto
  then show ?thesis
  proof cases
    case automatic
    let ?d = "clock E (length (trace w @ tile_calls bbox ''Segmentiere Objekte...''
                                 @ [Time_time] @ automatic_calls (next_handle w)))
              - clock E (length (trace w @ tile_calls bbox ''Segmentiere Objekte...''))"
    have rec: "session w' ''results'' = Some (PDict (automatic_record (option_label mode) ?d))"
      by (simp add: automatic(1))
    have calls: "automatic_calls (next_handle w) = automatic_calls (next_handle w)
                 \<or> (\<exists>p bt tt. automatic_calls (next_handle w)
                                 = text_prompt_calls (next_handle w) p bt tt)"
      by simp
    from found[OF automatic(2) calls rec duration_automatic_record] show ?thesis
      by blast
  next
    case text_prompt
    let ?d = "clock E (length (trace w @ tile_calls bbox (spinner_text Text_Prompt_Suche p)
                                 @ [Time_time] @ text_prompt_calls (next_handle w) p bt tt))
              - clock E (length (trace w @ tile_calls bbox (spinner_text Text_Prompt_Suche p)))"
    have rec: "session w' ''results'' = Some (PDict (text_prompt_record (option_label mode) p ?d
                 (Handle (next_handle w) LangSAMCfg)))"
      by (simp add: text_prompt(1))
    have calls: "text_prompt_calls (next_handle w) p bt tt = automatic_calls (next_handle w)
                 \<or> (\<exists>p' bt' tt'. text_prompt_calls (next_handle w) p bt tt
                                    = text_prompt_calls (next_handle w) p' bt' tt')"
      by blast
    from found[OF text_prompt(2) calls rec duration_text_prompt_record] show ?thesis
      by blast
  qed
qed

text \<open>
  Claim C8 as stated fails: \<^verbatim>\<open>time.time()\<close> is the system clock, and when it is set back
  between the two readings (5 at the first, 3 at the second) the run succeeds and stores
  the duration -2.
\<close>

theorem negative_duration_counterexample:
  "fst (run_segmentation E_back bbox0 ''Automatische Segmentierung'' None (world0 Map.empty)) = Rerun
   \<and> session (snd (run_segmentation E_back bbox0 ''Automatische Segmentierung'' None
                      (world0 Map.empty))) ''results''
     = Some (PDict [(''tiff_path'', PStr ''satellite.tif''),
                    (''mask_path'', PStr ''masks.tif''),
                    (''vector_path'', PStr ''masks.shp''),
                    (''vis_path'', PStr ''visualization.png''),
                    (''process_type'', PStr ''Automatische Segmentierung''),
                    (''duration'', PFloat (- 2))])"
  by (simp add: run_defs E_back_def E0_def world0_def)

text \<open>
  With the clock that is set back, the stored duration is the reading at moment 11 minus
  the reading at moment 3.
\<close>

theorem duration_is_clock_difference_witness:
  "\<exists>rec. session (snd (run_segmentation E_back bbox0 ''Automatische Segmentierung'' None
                          (world0 Map.empty))) ''results'' = Some (PDict rec)
         \<and> map_of rec ''duration'' = Some (PFloat (clock E_back 11 - clock E_back 3))"
proof -
  have run: "fst (run_segmentation E_back bbox0 (option_label Automatische_Segmentierung) None
                    (world0 Map.empty)) = Rerun"
    by (simp add: run_defs E_back_def E0_def world0_def)
  from duration_is_clock_difference [where E = E_back and bbox = bbox0
      and mode = Automatische_Segmentierung and pv = None and w = "world0 Map.empty"
      and w' = "snd (run_segmentation E_back bbox0 (option_label Automatische_Segmentierung) None
                       (world0 Map.empty))"] run
  show ?thesis
    by (auto simp: prod_eq_iff world0_def tile_calls_def automatic_calls_def text_prompt_calls_def
          eval_nat_numeral)
qed

subsection \<open>Quiet and neutral programs\<close>

lemma quiet_ret: "quiet X (ret x)"
  by (simp add: quiet_def ret_def)

lemma quiet_raise: "X e \<Longrightarrow> quiet X (raise e)"
  by (simp add: quiet_def raise_def)

lemma quiet_bind:
  assumes "quiet X m" and "\<And>x. quiet X (f x)"
  shows "quiet X (bind m f)"
  unfolding quiet_def
proof
  fix w
  from assms(1) have m: "session (snd (m w)) = session w" "trace (snd (m w)) = trace w"
    "next_handle (snd (m w)) = next_handle w"
    "case fst (m w) of Returned x \<Rightarrow> True | Raised e \<Rightarrow> X e | Rerun \<Rightarrow> False"
    by (simp_all add: quiet_def)
  show "session (snd (bind m f w)) = session w \<and> trace (snd (bind m f w)) = trace w \<and>
        next_handle (snd (bind m f w)) = next_handle w \<and>
        (case fst (bind m f w) of Returned x \<Rightarrow> True | Raised e \<Rightarrow> X e | Rerun \<Rightarrow> False)"
  proof (cases "m w")
    case (Pair r w1)
    show ?thesis
    proof (cases r)
      case (Returned x)
      from assms(2)[of x] have "session (snd (f x w1)) = session w1"
        "trace (snd (f x w1)) = trace w1" "next_handle (snd (f x w1)) = next_handle w1"
        "case fst (f x w1) of Returned x \<Rightarrow> True | Raised e \<Rightarrow> X e | Rerun \<Rightarrow> False"
        by (simp_all add: quiet_def)
      with m Pair Returned show ?thesis by (simp add: bind_def)
    next
      case (Raised e)
      with m Pair show ?thesis by (simp add: bind_def)
    next
      case Rerun
      with m Pair show ?thesis by (simp add: bind_def)
    qed
  qed
qed

lemma quiet_if: "quiet X a \<Longrightarrow> quiet X b \<Longrightarrow> quiet X (if c then a else b)"
  by simp

lemma quiet_os_path_exists: "quiet X (os_path_exists p)"
  by (simp add: quiet_def os_path_exists_def)

lemma quiet_zipf_write: "quiet not_key_error (zipf_write z p a)"
  by (simp add: quiet_def zipf_write_def not_key_error_def split: option.splits node.splits)

lemma quiet_zipfile_open_w: "quiet not_key_error (zipfile_open_w z)"
  by (simp add: quiet_def zipfile_open_w_def not_key_error_def Let_def)

lemma quiet_open_rb: "quiet not_key_error (open_rb v)"
  by (simp add: quiet_def open_rb_def not_key_error_def
      split: option.splits node.splits pyval.splits)

lemma quiet_zip_loop: "quiet not_key_error (zip_loop z base exts)"
  by (induction exts) (auto intro!: quiet_bind quiet_ret quiet_os_path_exists quiet_zipf_write)

lemma quiet_create_shapefile_zip: "quiet not_key_error (create_shapefile_zip shp z)"
  unfolding create_shapefile_zip_def Let_def
  by (intro quiet_bind quiet_zipfile_open_w quiet_zip_loop)

lemma quiet_zip_of_value:
  "quiet not_key_error (case vp of PStr shp_path \<Rightarrow> create_shapefile_zip shp_path z
                                 | _ \<Rightarrow> raise TypeError)"
  by (cases vp) (auto intro: quiet_create_shapefile_zip quiet_raise simp: not_key_error_def)

lemma quiet_subscript: "quiet (\<lambda>e. True) (subscript r k)"
  by (simp add: quiet_def subscript_def ret_def raise_def split: pyval.splits option.splits)

lemma quiet_format_1f: "quiet (\<lambda>e. True) (format_1f E v)"
  by (simp add: quiet_def format_1f_def ret_def raise_def split: pyval.splits)

lemma quiet_results_header: "quiet (\<lambda>e. True) (results_header E r)"
  unfolding results_header_def
  by (intro quiet_bind quiet_subscript quiet_if quiet_ret)

lemma triple_bind_quiet:
  assumes "quiet X m" and "\<And>e. X e \<Longrightarrow> Q (Raised e) S T N" and "\<And>x. triple S T N (f x) Q"
  shows "triple S T N (bind m f) Q"
  unfolding triple_def
proof (intro allI impI)
  fix w :: world assume w: "session w = S \<and> trace w = T \<and> next_handle w = N"
  from assms(1) have m: "session (snd (m w)) = session w" "trace (snd (m w)) = trace w"
    "next_handle (snd (m w)) = next_handle w"
    "case fst (m w) of Returned x \<Rightarrow> True | Raised e \<Rightarrow> X e | Rerun \<Rightarrow> False"
    by (simp_all add: quiet_def)
  show "Q (fst (bind m f w)) (session (snd (bind m f w))) (trace (snd (bind m f w)))
          (next_handle (snd (bind m f w)))"
  proof (cases "m w")
    case (Pair r w1)
    show ?thesis
    proof (cases r)
      case (Returned x)
      from assms(3)[of x] m w Pair Returned show ?thesis
        by (simp add: bind_def triple_def)
    next
      case (Raised e)
      from assms(2)[of e] m w Pair Raised show ?thesis
        by (simp add: bind_def)
    next
      case Rerun
      with m Pair show ?thesis by simp
    qed
  qed
qed

lemmas triple_bind_open_rb = triple_bind_quiet[OF quiet_open_rb]
lemmas triple_bind_create_shapefile_zip = triple_bind_quiet[OF quiet_create_shapefile_zip]


subsection \<open>The results panel\<close>


text \<open>
  Claim C7. For a results dict whose mode is the text-prompt one and whose prompt is the
  string \<open>text_prompt\<close>, the header text of line 158 is \<^verbatim>\<open>Ergebnisse: \<close> followed by the
  prompt, so it contains the prompt literally; for the automatic mode the header is
  \<^verbatim>\<open>Ergebnisse: Automatische Segmentierung\<close>, which names the automatic mode.
\<close>

theorem results_header_names_prompt:
  assumes "map_of rec ''process_type'' = Some (PStr (option_label mode))"
    and "mode = Text_Prompt_Suche \<longrightarrow> map_of rec ''text_prompt'' = Some (PStr text_prompt)"
  shows "\<exists>header. results_header E (PDict rec) w = (Returned header, w)
         \<and> (case mode of
               Text_Prompt_Suche \<Rightarrow>
                 header = ''Ergebnisse: '' @ text_prompt \<and> sublist text_prompt header
             | Automatische_Segmentierung \<Rightarrow>
                 header = ''Ergebnisse: Automatische Segmentierung''
                 \<and> sublist ''Automatische Segmentierung'' header)"
proof (cases mode)
  case Automatische_Segmentierung
  have "sublist ''Automatische Segmentierung'' (''Ergebnisse: '' @ ''Automatische Segmentierung'')"
    by (rule sublist_append_leftI)
  with assms Automatische_Segmentierung show ?thesis
    by (simp add: results_header_def subscript_def ret_def)
next
  case Text_Prompt_Suche
  have "sublist text_prompt (''Ergebnisse: '' @ text_prompt)"
    by (rule sublist_append_leftI)
  with assms Text_Prompt_Suche show ?thesis
    by (simp add: results_header_def subscript_def ret_def format_str_def)
qed

text \<open>
  For the prompt \<^verbatim>\<open>tree\<close> the header is \<^verbatim>\<open>Ergebnisse: tree\<close>.
\<close>

theorem results_header_names_prompt_witness:
  "results_header E0 (PDict (text_prompt_record ''Text-Prompt Suche'' ''tree'' 0 (Handle 0 LangSAMCfg)))
     (world0 Map.empty) = (Returned ''Ergebnisse: tree'', world0 Map.empty)
   \<and> sublist ''tree'' ''Ergebnisse: tree''"
  using results_header_names_prompt [where mode = Text_Prompt_Suche and text_prompt = "''tree''"
      and rec = "text_prompt_record ''Text-Prompt Suche'' ''tree'' 0 (Handle 0 LangSAMCfg)"
      and E = E0 and w = "world0 Map.empty"]
  by (auto simp: text_prompt_record_def)

text \<open>
  Claim C5. The vectorization step of the results panel, on a results dict with a mode, a
  mask path and a vector path. When the mode is the text-prompt one, the only call is
  \<^verbatim>\<open>raster_to_vector\<close> on the object stored under \<^verbatim>\<open>sam\<close>, and no object is constructed.
  Otherwise \<^verbatim>\<open>SamGeo()\<close> is constructed without arguments and, unless the constructor
  raises, \<^verbatim>\<open>raster_to_vector\<close> is called on that new object: no object that existed before
  the step (so not the one made during the run) is used.
\<close>

theorem vectorize_handle_choice:
  assumes "map_of rec ''process_type'' = Some process_type"
    and "map_of rec ''mask_path'' = Some m"
    and "map_of rec ''vector_path'' = Some v"
    and "vectorize E (PDict rec) w = (r, w')"
  shows "if process_type = PStr ''Text-Prompt Suche''
         then (\<forall>sam. map_of rec ''sam'' = Some (PObj sam) \<longrightarrow>
                 trace w' = trace w @ [Raster_to_vector sam m v]
                 \<and> next_handle w' = next_handle w)
         else (trace w' = trace w @ [Construct (SamGeoCfg None None)]
               \<and> r = Raised (LibraryError (Construct (SamGeoCfg None None)))
               \<or> trace w' = trace w @ [Construct (SamGeoCfg None None),
                    Raster_to_vector (Handle (next_handle w) (SamGeoCfg None None)) m v]
                 \<and> next_handle w' = Suc (next_handle w)
                 \<and> (\<forall>h. hid h < next_handle w \<longrightarrow>
                        Raster_to_vector h m v \<notin> set (drop (length (trace w)) (trace w'))))"
  using assms
  by (auto simp: vectorize_def subscript_def bind_def ret_def raise_def construct_def call_def
      split: prod.splits if_splits)

text \<open>
  After a run that made object 0: the text-prompt dict vectorizes with object 0, the
  automatic dict with the new object 1.
\<close>

theorem vectorize_handle_choice_witness:
  "trace (snd (vectorize E0 (PDict (text_prompt_record ''Text-Prompt Suche'' ''tree'' 0
                                      (Handle 0 LangSAMCfg)))
                 ((world0 Map.empty)\<lparr>next_handle := 1\<rparr>)))
     = [Raster_to_vector (Handle 0 LangSAMCfg) (PStr ''masks.tif'') (PStr ''masks.shp'')]
   \<and> trace (snd (vectorize E0 (PDict (automatic_record ''Automatische Segmentierung'' 0))
                    ((world0 Map.empty)\<lparr>next_handle := 1\<rparr>)))
     = [Construct (SamGeoCfg None None),
        Raster_to_vector (Handle 1 (SamGeoCfg None None)) (PStr ''masks.tif'') (PStr ''masks.shp'')]"
proof -
  have ok: "fst (vectorize E0 (PDict (automatic_record ''Automatische Segmentierung'' 0))
                    ((world0 Map.empty)\<lparr>next_handle := 1\<rparr>)) = Returned ()"
    by (simp add: vectorize_def subscript_def bind_def ret_def construct_def call_def
        automatic_record_def E0_def world0_def)
  from vectorize_handle_choice [where E = E0 and w = "(world0 Map.empty)\<lparr>next_handle := 1\<rparr>"
      and rec = "text_prompt_record ''Text-Prompt Suche'' ''tree'' 0 (Handle 0 LangSAMCfg)"
      and process_type = "PStr ''Text-Prompt Suche''"
      and m = "PStr ''masks.tif''" and v = "PStr ''masks.shp''", OF _ _ _ surjective_pairing]
    vectorize_handle_choice [where E = E0 and w = "(world0 Map.empty)\<lparr>next_handle := 1\<rparr>"
      and rec = "automatic_record ''Automatische Segmentierung'' 0"
      and process_type = "PStr ''Automatische Segmentierung''"
      and m = "PStr ''masks.tif''" and v = "PStr ''masks.shp''", OF _ _ _ surjective_pairing]
    ok
  show ?thesis
    by (simp add: text_prompt_record_def automatic_record_def world0_def)
qed


lemma triple_if:
  assumes "c \<Longrightarrow> triple S T N a Q" and "\<not> c \<Longrightarrow> triple S T N b Q"
  shows "triple S T N (if c then a else b) Q"
  using assms by simp

lemma triple_reset_handler:
  assumes "Q Rerun (S(''results'' \<mapsto> PNone, ''map_visible'' \<mapsto> PBool True)) (T @ [St_rerun]) N"
  shows "triple S T N reset_handler Q"
  unfolding reset_handler_def
  by (intro triple_bind_session_set triple_rerun) (rule assms)

lemmas render_defs = render_results_def results_header_def vectorize_def subscript_def
  format_1f_def format_str_def reset_handler_def Let_def bind_assoc

lemma render_results_automatic_no_key_error:
  "triple S T N (render_results E W (PDict (automatic_record ''Automatische Segmentierung'' d)))
     (\<lambda>r S' T' N'. \<forall>k. r \<noteq> Raised (KeyError k))"
  apply (simp add: render_defs automatic_record_def split del: if_split)
  apply (intro vcg triple_bind_open_rb triple_bind_create_shapefile_zip triple_if
      triple_reset_handler)
  apply (simp_all add: not_key_error_def)
  done

lemma render_results_text_prompt_no_key_error:
  "triple S T N (render_results E W (PDict (text_prompt_record ''Text-Prompt Suche'' p d h)))
     (\<lambda>r S' T' N'. \<forall>k. r \<noteq> Raised (KeyError k))"
  apply (simp add: render_defs text_prompt_record_def split del: if_split)
  apply (intro vcg triple_bind_open_rb triple_bind_create_shapefile_zip triple_if
      triple_reset_handler)
  apply (simp_all add: not_key_error_def)
  done

text \<open>
  Claim C9. For the results dict that a completed run (of either branch) has stored, the
  results panel never raises a KeyError, whatever the libraries and the files do; the dict
  is truthy, so the panel is rendered. The dict of the automatic branch has no
  \<^verbatim>\<open>text_prompt\<close> and no \<^verbatim>\<open>sam\<close> key: an access to them would raise KeyError, and the
  panel makes none.
\<close>

theorem render_results_no_key_error:
  assumes "run_segmentation E1 bbox (option_label mode) pv w0 = (Rerun, w1)"
    and "session w1 ''results'' = Some results"
  shows "fst (render_results E W results w) \<noteq> Raised (KeyError k)
         \<and> truthy results
         \<and> (mode = Automatische_Segmentierung \<longrightarrow>
              subscript results ''text_prompt'' w = (Raised (KeyError ''text_prompt''), w)
              \<and> subscript results ''sam'' w = (Raised (KeyError ''sam''), w))"
proof (cases mode)
  case Automatische_Segmentierung
  with run_segmentation_cases[OF assms(1)] assms(2)
  obtain d where results: "results = PDict (automatic_record ''Automatische Segmentierung'' d)"
    by auto
  from tripleD[where w = w, OF render_results_automatic_no_key_error[where E = E and W = W and d = d]
      surjective_pairing refl refl refl]
  have "fst (render_results E W results w) \<noteq> Raised (KeyError k)"
    unfolding results by blast
  then show ?thesis
    using Automatische_Segmentierung
    by (simp add: results automatic_record_def subscript_def raise_def)
next
  case Text_Prompt_Suche
  with run_segmentation_cases[OF assms(1)] assms(2)
  obtain p d h where results: "results = PDict (text_prompt_record ''Text-Prompt Suche'' p d h)"
    by auto
  from tripleD[where w = w, OF render_results_text_prompt_no_key_error[where E = E and W = W
        and d = d and p = p and h = h] surjective_pairing refl refl refl]
  have "fst (render_results E W results w) \<noteq> Raised (KeyError k)"
    unfolding results by blast
  then show ?thesis
    using Text_Prompt_Suche
    by (simp add: results text_prompt_record_def)
qed

text \<open>
  The dict of an automatic run: the panel does not raise KeyError, though the dict has no
  \<^verbatim>\<open>text_prompt\<close> key.
\<close>

theorem render_results_no_key_error_witness:
  "fst (render_results E0 W0 (PDict (automatic_record ''Automatische Segmentierung'' 0))
          (world0 Map.empty)) \<noteq> Raised (KeyError ''text_prompt'')
   \<and> subscript (PDict (automatic_record ''Automatische Segmentierung'' 0)) ''text_prompt''
         (world0 Map.empty) = (Raised (KeyError ''text_prompt''), world0 Map.empty)"
proof -
  have run: "fst (run_segmentation E0 bbox0 (option_label Automatische_Segmentierung) None
                    (world0 Map.empty)) = Rerun"
    and results: "session (snd (run_segmentation E0 bbox0 (option_label Automatische_Segmentierung)
                    None (world0 Map.empty))) ''results''
                  = Some (PDict (automatic_record ''Automatische Segmentierung'' 0))"
    by (simp_all add: run_defs E0_def world0_def automatic_record_def)
  from render_results_no_key_error [where ?E1.0 = E0 and bbox = bbox0
      and mode = Automatische_Segmentierung and pv = None and ?w0.0 = "world0 Map.empty"
      and E = E0 and W = W0 and w = "world0 Map.empty" and k = "''text_prompt''",
      OF _ results] run
  show ?thesis
    by (simp add: prod_eq_iff)
qed

subsection \<open>The reset button and the whole script\<close>


lemma triple_conseq:
  assumes "triple S T N m Q'" and "\<And>r S' T' N'. Q' r S' T' N' \<Longrightarrow> Q r S' T' N'"
  shows "triple S T N m Q"
  using assms unfolding triple_def by blast

lemma neutralD: "neutral m \<Longrightarrow> triple S T N m (\<lambda>r S' T' N'. S' = S \<and> r \<noteq> Rerun)"
  by (simp add: neutral_def)

lemma neutral_bind:
  fixes m :: "'a prog" and f :: "'a \<Rightarrow> 'b prog"
  assumes "neutral m" and "\<And>x. neutral (f x)"
  shows "neutral (bind m f)"
  unfolding neutral_def
proof (intro allI)
  fix S T N
  show "triple S T N (bind m f) (\<lambda>r S' T' N'. S' = S \<and> r \<noteq> Rerun)"
  proof (rule triple_bind, rule triple_conseq[OF neutralD[OF assms(1)]])
    fix r :: "'a result" and S' T' N' assume "S' = S \<and> r \<noteq> Rerun"
    then show "case r of
        Returned x \<Rightarrow> triple S' T' N' (f x) (\<lambda>r S' T' N'. S' = S \<and> r \<noteq> Rerun)
      | Raised e \<Rightarrow> S' = S \<and> Raised e \<noteq> Rerun
      | Rerun \<Rightarrow> S' = S \<and> Rerun \<noteq> Rerun"
      using neutralD[OF assms(2)] by (cases r) auto
  qed
qed

lemma neutral_quiet: "quiet X m \<Longrightarrow> neutral m"
  by (auto simp: neutral_def triple_def quiet_def split: result.splits)

lemma neutral_call: "neutral (call E c)"
  by (simp add: neutral_def triple_call)

lemma neutral_construct: "neutral (construct E cfg)"
  by (simp add: neutral_def triple_construct)

lemma neutral_ret: "neutral (ret x)"
  by (simp add: neutral_def triple_ret)

lemma neutral_raise: "neutral (raise e)"
  by (simp add: neutral_def triple_raise)

lemma neutral_if: "neutral a \<Longrightarrow> neutral b \<Longrightarrow> neutral (if c then a else b)"
  by simp

lemma neutral_session_has: "neutral (session_has k)"
  by (simp add: neutral_def triple_def session_has_def)

lemma neutral_session_get: "neutral (session_get k)"
  by (simp add: neutral_def triple_def session_get_def split: option.splits)

lemmas neutral_subscript = neutral_quiet[OF quiet_subscript]
lemmas neutral_format_1f = neutral_quiet[OF quiet_format_1f]
lemmas neutral_results_header = neutral_quiet[OF quiet_results_header]
lemmas neutral_open_rb = neutral_quiet[OF quiet_open_rb]
lemmas neutral_zip_of_value = neutral_quiet[OF quiet_zip_of_value]

lemma neutral_render_map: "neutral (render_map E)"
  unfolding render_map_def
  by (intro neutral_bind neutral_session_get neutral_if neutral_call neutral_ret)

lemma neutral_render_sidebar: "neutral (render_sidebar E W)"
  unfolding render_sidebar_def Let_def
  by (intro neutral_bind neutral_if neutral_call neutral_ret)

lemma neutral_render_bbox: "neutral (render_bbox E W)"
  unfolding render_bbox_def Let_def
  by (intro neutral_bind neutral_call neutral_ret)

lemma neutral_vectorize: "neutral (vectorize E results)"
  unfolding vectorize_def
  by (auto intro!: neutral_bind neutral_subscript neutral_construct neutral_call neutral_raise
      split: pyval.splits)

lemma triple_bind_neutral:
  fixes m :: "'a prog"
  assumes "neutral m" and "\<And>e T' N'. Q (Raised e) S T' N'"
    and "\<And>x T' N'. triple S T' N' (f x) Q"
  shows "triple S T N (bind m f) Q"
proof (rule triple_bind, rule triple_conseq[OF neutralD[OF assms(1)]])
  fix r :: "'a result" and S' T' N' assume "S' = S \<and> r \<noteq> Rerun"
  then show "case r of Returned x \<Rightarrow> triple S' T' N' (f x) Q
      | Raised e \<Rightarrow> Q (Raised e) S' T' N' | Rerun \<Rightarrow> Q Rerun S' T' N'"
    using assms(2,3) by (cases r) auto
qed

lemmas neutral_steps =
  triple_bind_neutral[OF neutral_call] triple_bind_neutral[OF neutral_subscript]
  triple_bind_neutral[OF neutral_format_1f] triple_bind_neutral[OF neutral_results_header]
  triple_bind_neutral[OF neutral_vectorize] triple_bind_neutral[OF neutral_open_rb]
  triple_bind_neutral[OF neutral_zip_of_value] triple_bind_neutral[OF neutral_render_map]
  triple_bind_neutral[OF neutral_render_sidebar] triple_bind_neutral[OF neutral_render_bbox]
  triple_bind_neutral[OF neutral_session_has] triple_bind_neutral[OF neutral_session_get]

lemma triple_render_results:
  assumes "\<And>T' N'. reset_clicked W \<Longrightarrow>
             Q Rerun (S(''results'' \<mapsto> PNone, ''map_visible'' \<mapsto> PBool True)) T' N'"
    and "\<And>e T' N'. Q (Raised e) S T' N'"
    and "\<And>T' N'. Q (Returned ()) S T' N'"
  shows "triple S T N (render_results E W results) Q"
  unfolding render_results_def Let_def
  by (intro neutral_steps triple_if triple_reset_handler triple_ret) (use assms in auto)

lemma triple_bind_if:
  assumes "c \<Longrightarrow> triple S T N (bind a f) Q" and "\<not> c \<Longrightarrow> triple S T N (bind b f) Q"
  shows "triple S T N (bind (if c then a else b) f) Q"
  using assms by simp

lemma triple_bind_ret:
  assumes "triple S T N (f x) Q"
  shows "triple S T N (bind (ret x) f) Q"
  using assms by simp

lemma triple_case_prod:
  assumes "\<And>a b. triple S T N (f a b) Q"
  shows "triple S T N (case x of (a, b) \<Rightarrow> f a b) Q"
  using assms by (cases x) simp

lemma script_without_run:
  assumes "\<not> run_clicked W"
  shows "triple S T N (script E W) (\<lambda>r S' T' N'.
           r = Rerun \<longrightarrow> reset_clicked W \<and> S' ''results'' = Some PNone
                          \<and> S' ''map_visible'' = Some (PBool True))"
  unfolding script_def init_session_def
  apply (simp only: assms if_False bind_assoc)
  apply (intro neutral_steps triple_bind_if triple_bind_ret triple_bind_session_set
      triple_case_prod triple_if triple_render_results triple_ret)
  apply simp_all
  done




lemma step_call: "bind (call E0 c) f w = f () (w\<lparr>trace := trace w @ [c]\<rparr>)"
  by (simp add: bind_def call_def E0_def)

lemma step_construct:
  "bind (construct E0 cfg) f w =
     f (Handle (next_handle w) cfg)
       (w\<lparr>trace := trace w @ [Construct cfg], next_handle := Suc (next_handle w)\<rparr>)"
  by (simp add: construct_def bind_def call_def E0_def)

lemma step_session_has: "bind (session_has k) f w = f (session w k \<noteq> None) w"
  by (simp add: bind_def session_has_def)

lemma step_session_get:
  "bind (session_get k) f w =
     (if session w k = None then (Raised (AttributeError k), w) else f (the (session w k)) w)"
  by (simp add: bind_def session_get_def split: option.splits)

lemma step_session_set:
  "bind (session_set k v) f w = f () (w\<lparr>session := (session w)(k \<mapsto> v)\<rparr>)"
  by (simp add: bind_def session_set_def)

lemma step_subscript:
  "bind (subscript (PDict d) k) f w =
     (if map_of d k = None then (Raised (KeyError k), w) else f (the (map_of d k)) w)"
  by (simp add: bind_def subscript_def ret_def raise_def split: option.splits)

lemma step_open_rb:
  "bind (open_rb (PStr p)) f w =
     (if files w p = None then (Raised (FileNotFoundError p), w)
      else if files w p = Some Dir then (Raised (IsADirectoryError p), w)
      else f (case the (files w p) of File b \<Rightarrow> b) w)"
  by (simp add: bind_def open_rb_def split: option.splits node.splits)

lemma step_os_path_exists: "bind (os_path_exists p) f w = f (files w p \<noteq> None) w"
  by (simp add: bind_def os_path_exists_def)

lemma step_zipfile_open_w:
  assumes "plain_file_name z"
  shows "bind (zipfile_open_w z) f w =
     (if files w z = Some Dir then (Raised (IsADirectoryError z), w)
      else f () (w\<lparr>files := (files w)(z \<mapsto> File (ZipOf []))\<rparr>))"
proof (cases "files w z = Some Dir")
  case True
  from assms have slash: "CHR ''/'' \<notin> set z"
    by (simp add: plain_file_name_def)
  from True assms show ?thesis
    by (simp add: bind_def zipfile_open_w_def no_slash_strip[OF slash] no_slash_basename[OF slash]
        parent_exists_bare[OF slash] plain_file_name_def)
next
  case False
  with zipfile_open_w_bare[OF assms False] show ?thesis
    by (simp add: bind_def)
qed

lemma step_if: "bind (if c then a else b) f w = (if c then bind a f w else bind b f w)"
  by simp

lemma step_format_1f: "bind (format_1f E (PFloat d)) f w = f (fmt_1f E d) w"
  by (simp add: format_1f_def)

lemmas steps = step_call step_construct step_session_has step_session_get step_session_set
  step_subscript step_open_rb step_os_path_exists step_zipfile_open_w step_if step_format_1f
  bind_assoc

text \<open>
  Evaluating the script on concrete inputs, with libraries that always succeed.
\<close>

lemma script_reset_example:
  "fst (script E0 (W0\<lparr>reset_clicked := True\<rparr>) world_results) = Rerun"
  by (simp add: steps script_def init_session_def render_map_def render_sidebar_def
      render_bbox_def render_results_def results_header_def vectorize_def reset_handler_def
      create_shapefile_zip_def extensions_def W0_def world_results_def automatic_record_def
      st_rerun_def ret_def Let_def plain_file_name_def)


lemma triple_session_has_eq:
  "triple S T N (bind (session_has k) f) Q = triple S T N (f (S k \<noteq> None)) Q"
  by (auto simp: triple_def bind_def session_has_def)

lemma triple_session_get_eq:
  "S k \<noteq> None \<Longrightarrow>
   triple S T N (bind (session_get k) f) Q = triple S T N (f (the (S k))) Q"
  by (auto simp: triple_def bind_def session_get_def)

lemma script_input_screen:
  assumes "S ''results'' = Some PNone" and "S ''map_visible'' = Some (PBool True)"
    and "\<not> run_clicked W"
  shows "triple S T N (script E W) (\<lambda>r S' T' N'.
           r \<noteq> Rerun \<and> S' = S \<and> (r = Returned () \<longrightarrow> T' = T @ input_screen_calls W))"
proof (cases "radio_value W")
  case Automatische_Segmentierung
  show ?thesis
    unfolding script_def init_session_def render_map_def render_sidebar_def render_bbox_def Let_def
    by (intro vcg | simp add: assms Automatische_Segmentierung bind_assoc triple_session_has_eq
        triple_session_get_eq triple_ret input_screen_calls_def)+
next
  case Text_Prompt_Suche
  show ?thesis
    unfolding script_def init_session_def render_map_def render_sidebar_def render_bbox_def Let_def
    by (intro vcg | simp add: assms Text_Prompt_Suche bind_assoc triple_session_has_eq
        triple_session_get_eq triple_ret input_screen_calls_def)+
qed

text \<open>
  Claim C6. An execution of the script that was not started by the run button and ends in
  a rerun is the reset action: the reset button was clicked, and afterwards \<^verbatim>\<open>results\<close> is
  None and \<^verbatim>\<open>map_visible\<close> is True, the values the two fields get on first load. The next
  execution (again without the run button) then shows the input screen only: it asks for
  no further rerun, leaves the session state alone and, when no call raises, makes exactly
  the calls of the page, the map, the sidebar and the bounding box form, none of the
  results panel.
\<close>

theorem reset_restores_initial_state:
  assumes "script E W w = (Rerun, w')" and "\<not> run_clicked W"
  shows "reset_clicked W
       \<and> session w' ''results'' = Some PNone
       \<and> session w' ''map_visible'' = Some (PBool True)
       \<and> session w' ''results'' = session (snd (init_session (w\<lparr>session := Map.empty\<rparr>))) ''results''
       \<and> session w' ''map_visible''
           = session (snd (init_session (w\<lparr>session := Map.empty\<rparr>))) ''map_visible''
       \<and> (\<forall>E' W' r w''. \<not> run_clicked W' \<and> script E' W' w' = (r, w'') \<longrightarrow>
              r \<noteq> Rerun \<and> session w'' = session w'
              \<and> (r = Returned () \<longrightarrow> trace w'' = trace w' @ input_screen_calls W'))"
proof -
  from tripleD[OF script_without_run[OF assms(2)] assms(1) refl refl refl]
  have reset: "reset_clicked W" "session w' ''results'' = Some PNone"
    "session w' ''map_visible'' = Some (PBool True)"
    by simp_all
  have first_load: "session (snd (init_session (w\<lparr>session := Map.empty\<rparr>)))
                 = [''results'' \<mapsto> PNone, ''map_visible'' \<mapsto> PBool True]"
    by (simp add: init_session_def bind_def session_has_def session_set_def ret_def)
  have next_run: "r \<noteq> Rerun \<and> session w'' = session w'
              \<and> (r = Returned () \<longrightarrow> trace w'' = trace w' @ input_screen_calls W')"
    if "\<not> run_clicked W'" and "script E' W' w' = (r, w'')" for E' W' r w''
    using tripleD[OF script_input_screen[OF reset(2,3) that(1)] that(2) refl refl refl]
    by simp
  have first: "session (snd (init_session (w\<lparr>session := Map.empty\<rparr>))) ''results'' = Some PNone"
    "session (snd (init_session (w\<lparr>session := Map.empty\<rparr>))) ''map_visible'' = Some (PBool True)"
    by (simp_all add: first_load)
  from reset first next_run show ?thesis
    by (simp only:) blast
qed

text \<open>
  After an automatic run, with the three artifacts on disk, a click on the reset button.
\<close>

theorem reset_restores_initial_state_witness:
  "session (snd (script E0 (W0\<lparr>reset_clicked := True\<rparr>) world_results)) ''results'' = Some PNone
   \<and> session (snd (script E0 (W0\<lparr>reset_clicked := True\<rparr>) world_results)) ''map_visible''
       = Some (PBool True)"
proof -
  have clicked: "\<not> run_clicked (W0\<lparr>reset_clicked := True\<rparr>)"
    by (simp add: W0_def)
  have "script E0 (W0\<lparr>reset_clicked := True\<rparr>) world_results
        = (Rerun, snd (script E0 (W0\<lparr>reset_clicked := True\<rparr>) world_results))"
    using script_reset_example by (simp add: prod_eq_iff)
  from reset_restores_initial_state[OF this clicked] show ?thesis
    by blast
qed

end
